theory Spec2Isabelle
  imports Complex_Main
begin

section \<open>The packages store of the desktop module\<close>

text \<open>
  A shallow embedding of \<^verbatim>\<open>src/modules/desktop/src/libs/stores/pkgs.ts\<close>.
  The store returned by \<^verbatim>\<open>initPackagesStore\<close> is a record that is passed through every
  operation and returned updated. Asynchronous calls are run to completion one after the
  other: the outcome of each awaited native call is an argument of the operation that awaits
  it, a value of a sum type whose left injection is the thrown value.
\<close>

subsection \<open>Numbers\<close>

text \<open>
  A JavaScript \<^verbatim>\<open>number\<close> is a real number or one of the three non-finite values. The
  arithmetic is exact: the rounding of binary64 is left out, and so is the negative zero (no
  divisor of the module can be one). A value computed here can therefore differ from the
  one the code computes in its last digits, and after \<^verbatim>\<open>toFixed(2)\<close> by 0.01 where the exact
  value lies halfway between two multiples of 0.01 (the quotient 3/40 is 0.08 here and prints
  as 0.07 in binary64); a large finite value here can be an infinite one in the code.
\<close>

datatype number = Num real | PosInfinity | NegInfinity | NaN

fun js_neg :: "number \<Rightarrow> number" where
  "js_neg (Num a) = Num (- a)"
| "js_neg PosInfinity = NegInfinity"
| "js_neg NegInfinity = PosInfinity"
| "js_neg NaN = NaN"

fun js_add :: "number \<Rightarrow> number \<Rightarrow> number" where
  "js_add (Num a) (Num b) = Num (a + b)"
| "js_add NaN _ = NaN"
| "js_add _ NaN = NaN"
| "js_add PosInfinity NegInfinity = NaN"
| "js_add NegInfinity PosInfinity = NaN"
| "js_add PosInfinity _ = PosInfinity"
| "js_add _ PosInfinity = PosInfinity"
| "js_add NegInfinity _ = NegInfinity"
| "js_add _ NegInfinity = NegInfinity"

definition js_sub :: "number \<Rightarrow> number \<Rightarrow> number" where
  "js_sub a b = js_add a (js_neg b)"

definition signed_infinity :: "bool \<Rightarrow> number" where
  "signed_infinity positive = (if positive then PosInfinity else NegInfinity)"

fun js_mul :: "number \<Rightarrow> number \<Rightarrow> number" where
  "js_mul (Num a) (Num b) = Num (a * b)"
| "js_mul NaN _ = NaN"
| "js_mul _ NaN = NaN"
| "js_mul PosInfinity (Num b) = (if b = 0 then NaN else signed_infinity (0 < b))"
| "js_mul NegInfinity (Num b) = (if b = 0 then NaN else signed_infinity (b < 0))"
| "js_mul (Num a) PosInfinity = (if a = 0 then NaN else signed_infinity (0 < a))"
| "js_mul (Num a) NegInfinity = (if a = 0 then NaN else signed_infinity (a < 0))"
| "js_mul PosInfinity PosInfinity = PosInfinity"
| "js_mul NegInfinity NegInfinity = PosInfinity"
| "js_mul PosInfinity NegInfinity = NegInfinity"
| "js_mul NegInfinity PosInfinity = NegInfinity"

fun js_div :: "number \<Rightarrow> number \<Rightarrow> number" where
  "js_div (Num a) (Num b) =
     (if b = 0 then (if a = 0 then NaN else signed_infinity (0 < a)) else Num (a / b))"
| "js_div NaN _ = NaN"
| "js_div _ NaN = NaN"
| "js_div (Num a) PosInfinity = Num 0"
| "js_div (Num a) NegInfinity = Num 0"
| "js_div PosInfinity (Num b) = signed_infinity (0 \<le> b)"
| "js_div NegInfinity (Num b) = signed_infinity (b < 0)"
| "js_div PosInfinity PosInfinity = NaN"
| "js_div PosInfinity NegInfinity = NaN"
| "js_div NegInfinity PosInfinity = NaN"
| "js_div NegInfinity NegInfinity = NaN"

text \<open>
  \<^verbatim>\<open>+x.toFixed(2)\<close>: the nearest multiple of 1/100, the larger in absolute value of two
  equally near ones; a non-finite number prints as its name and reads back as itself.
\<close>

fun toFixed2 :: "number \<Rightarrow> number" where
  "toFixed2 (Num x) =
     (if x < 0 then Num (- (real_of_int (round (- x * 100)) / 100))
      else Num (real_of_int (round (x * 100)) / 100))"
| "toFixed2 n = n"

subsection \<open>Package records\<close>

text \<open>
  The type declarations of the records are not part of the source file. The fields are the
  ones the module reads or writes in the operations below, and the four keys of the search
  index; an optional field holds \<open>None\<close> when it is undefined.
\<close>

record InstalledPackage =
  full_name :: string
  installed_versions :: "string list"

text \<open>
  What \<^verbatim>\<open>getInstalledPackages\<close> delivers is not checked against the declared type when it
  arrives. An entry is either of that type or an object with a \<open>full_name\<close> whose
  \<^verbatim>\<open>installed_versions\<close> is undefined; reading element 0 of the latter throws a
  \<^verbatim>\<open>TypeError\<close>.
\<close>

datatype received_entry = WellTyped InstalledPackage | WithoutVersions string

fun entry_full_name :: "received_entry \<Rightarrow> string" where
  "entry_full_name (WellTyped p) = InstalledPackage.full_name p"
| "entry_full_name (WithoutVersions fn) = fn"

fun entry_installed_versions :: "received_entry \<Rightarrow> string list option" where
  "entry_installed_versions (WellTyped p) = Some (InstalledPackage.installed_versions p)"
| "entry_installed_versions (WithoutVersions fn) = None"

record Bottle =
  bytes :: nat

datatype PackageStates =
  AVAILABLE | INSTALLED | INSTALLING | UNINSTALLED | NEEDS_UPDATE | UPDATING

record Package =
  full_name :: string
  name :: string
  slug :: string
  desc :: string
  categories :: "string list"
  homepage :: string
  version :: string
  bottles :: "Bottle list option"

record GUIPackage = Package +
  state :: PackageStates
  installed_versions :: "string list option"
  install_progress_percentage :: "number option"
  synced :: "bool option"

text \<open>
  A \<^verbatim>\<open>Partial<GUIPackage>\<close> is the list of the keys it has, each with its value; a key
  of an optional field may be present with the value undefined.
\<close>

datatype GUIPackage_prop =
    Prop_full_name string
  | Prop_name string
  | Prop_slug string
  | Prop_desc string
  | Prop_categories "string list"
  | Prop_homepage string
  | Prop_version string
  | Prop_bottles "Bottle list option"
  | Prop_state PackageStates
  | Prop_installed_versions "string list option"
  | Prop_install_progress_percentage "number option"
  | Prop_synced "bool option"

fun set_prop :: "GUIPackage_prop \<Rightarrow> GUIPackage \<Rightarrow> GUIPackage" where
  "set_prop (Prop_full_name v) p = p\<lparr>Package.full_name := v\<rparr>"
| "set_prop (Prop_name v) p = p\<lparr>name := v\<rparr>"
| "set_prop (Prop_slug v) p = p\<lparr>slug := v\<rparr>"
| "set_prop (Prop_desc v) p = p\<lparr>desc := v\<rparr>"
| "set_prop (Prop_categories v) p = p\<lparr>categories := v\<rparr>"
| "set_prop (Prop_homepage v) p = p\<lparr>homepage := v\<rparr>"
| "set_prop (Prop_version v) p = p\<lparr>version := v\<rparr>"
| "set_prop (Prop_bottles v) p = p\<lparr>bottles := v\<rparr>"
| "set_prop (Prop_state v) p = p\<lparr>state := v\<rparr>"
| "set_prop (Prop_installed_versions v) p = p\<lparr>GUIPackage.installed_versions := v\<rparr>"
| "set_prop (Prop_install_progress_percentage v) p = p\<lparr>install_progress_percentage := v\<rparr>"
| "set_prop (Prop_synced v) p = p\<lparr>synced := v\<rparr>"

text \<open>The spread \<^verbatim>\<open>{ ...pkg, ...props }\<close>: every key of \<open>props\<close> overrides the record's.\<close>

definition spread :: "GUIPackage \<Rightarrow> GUIPackage_prop list \<Rightarrow> GUIPackage" where
  "spread pkg props = fold set_prop props pkg"

subsection \<open>Thrown values, effects and the store\<close>

datatype thrown = Error string | NonError string

text \<open>The error of reading a property of undefined; the wording of its message is the engine's.\<close>

definition TypeError :: thrown where
  "TypeError = Error ''Cannot read properties of undefined''"

text \<open>
  The calls the module makes to the logger, the native backend, the index constructor and
  the analytics are recorded in the order they happen. None of the logger and analytics calls
  throws.
\<close>

datatype effect =
    LogInfo string
  | LogInfoNum string nat
  | LogInfoBool string bool
  | LogError thrown
  | GetDistPackages
  | GetInstalledPackages
  | NewFuse
  | InstallPackage GUIPackage string
  | TrackInstall string
  | TrackInstallFailed string string

text \<open>
  The index \<^verbatim>\<open>new Fuse(guiPkgs, { keys })\<close> is determined by the documents and the keys
  it is built from. The array it is given is the array the store holds, which
  \<^verbatim>\<open>updatePackage\<close> changes in place: \<open>packages\<close> below is that one array.
\<close>

record Fuse =
  docs :: "GUIPackage list"
  keys :: "string list"

record FuseResult =
  item :: GUIPackage
  refIndex :: nat

record store =
  initialized :: bool
  syncProgress :: number
  packages :: "GUIPackage list"
  requireTeaCli :: bool
  packagesIndex :: "Fuse option"
  effects :: "effect list"

definition initPackagesStore :: store where
  "initPackagesStore =
     \<lparr>initialized = False, syncProgress = Num 0, packages = [], requireTeaCli = False,
      packagesIndex = None, effects = []\<rparr>"

definition perform :: "effect \<Rightarrow> store \<Rightarrow> store" where
  "perform e s = s\<lparr>effects := effects s @ [e]\<rparr>"

subsection \<open>updatePackage\<close>

text \<open>\<^verbatim>\<open>Array.prototype.findIndex\<close>, with \<open>None\<close> for the result -1.\<close>

fun findIndex :: "('a \<Rightarrow> bool) \<Rightarrow> 'a list \<Rightarrow> nat option" where
  "findIndex P [] = None"
| "findIndex P (x # xs) = (if P x then Some 0 else map_option Suc (findIndex P xs))"

definition updatePackage :: "string \<Rightarrow> GUIPackage_prop list \<Rightarrow> store \<Rightarrow> store" where
  "updatePackage fn props s =
     s\<lparr>packages :=
         (case findIndex (\<lambda>pkg. Package.full_name pkg = fn) (packages s) of
            Some i \<Rightarrow> (packages s)[i := spread (packages s ! i) props]
          | None \<Rightarrow> packages s)\<rparr>"

subsection \<open>withFakeLoader\<close>

definition assumedDlSpeedMb :: real where
  "assumedDlSpeedMb = 1024 * 1024 * 3"

text \<open>\<^verbatim>\<open>pkg?.bottles?.length ? pkg.bottles[0].bytes : assumedDlSpeedMb * 10\<close>\<close>

definition withFakeLoader_size :: "GUIPackage \<Rightarrow> number" where
  "withFakeLoader_size pkg =
     (case bottles pkg of
        Some (b # bs) \<Rightarrow> Num (real (bytes b))
      | Some [] \<Rightarrow> Num (assumedDlSpeedMb * 10)
      | None \<Rightarrow> Num (assumedDlSpeedMb * 10))"

definition withFakeLoader_eta :: "GUIPackage \<Rightarrow> number" where
  "withFakeLoader_eta pkg = js_div (withFakeLoader_size pkg) (Num assumedDlSpeedMb)"

definition withFakeLoader_increment :: "GUIPackage \<Rightarrow> number" where
  "withFakeLoader_increment pkg = js_div (js_div (Num 1) (withFakeLoader_eta pkg)) (Num 10)"

text \<open>One run of the interval's callback on the variable \<^verbatim>\<open>fakeLoadingProgress\<close>.\<close>

definition fakeTimer_tick :: "number \<Rightarrow> number \<Rightarrow> number" where
  "fakeTimer_tick increment fakeLoadingProgress =
     (let progressLeft = js_sub (Num 100) fakeLoadingProgress;
          addProgress = js_mul progressLeft increment
      in js_add fakeLoadingProgress addProgress)"

text \<open>The value of \<^verbatim>\<open>fakeLoadingProgress\<close> after \<open>n\<close> ticks of the timer.\<close>

fun fakeLoadingProgress :: "GUIPackage \<Rightarrow> nat \<Rightarrow> number" where
  "fakeLoadingProgress pkg 0 = Num 1"
| "fakeLoadingProgress pkg (Suc n) =
     fakeTimer_tick (withFakeLoader_increment pkg) (fakeLoadingProgress pkg n)"

text \<open>What the \<open>n\<close>-th tick passes to the callback.\<close>

definition reported_progress :: "GUIPackage \<Rightarrow> nat \<Rightarrow> number" where
  "reported_progress pkg n = toFixed2 (fakeLoadingProgress pkg n)"

subsection \<open>init\<close>

definition toGUIPackage :: "Package \<Rightarrow> GUIPackage" where
  "toGUIPackage p =
     \<lparr>Package.full_name = Package.full_name p, name = name p, slug = slug p, desc = desc p,
      categories = categories p, homepage = homepage p, version = version p,
      bottles = bottles p, state = AVAILABLE, installed_versions = None,
      install_progress_percentage = None, synced = None\<rparr>"

text \<open>\<^verbatim>\<open>xs[0]\<close>, undefined on the empty array.\<close>

definition first_element :: "'a list \<Rightarrow> 'a option" where
  "first_element xs = (case xs of [] \<Rightarrow> None | x # _ \<Rightarrow> Some x)"

text \<open>
  \<^verbatim>\<open>checkTeaCLIPackage\<close>; the store it returns with a thrown value is the store at the throw.
\<close>

definition checkTeaCLIPackage :: "Package \<Rightarrow> received_entry option \<Rightarrow> store \<Rightarrow> thrown + store" where
  "checkTeaCLIPackage teaPkg installedPkg s =
     (case installedPkg of
        None \<Rightarrow> Inr (s\<lparr>requireTeaCli := True\<rparr>)
      | Some ip \<Rightarrow>
          (case entry_installed_versions ip of
             None \<Rightarrow> Inl TypeError
           | Some versions \<Rightarrow>
               (let isUpToDate = (Some (version teaPkg) = first_element versions)
                in Inr (perform (LogInfoBool ''check if Tea-CLI is up to date:'' isUpToDate) s))))"

text \<open>
  The body of the loop over \<^verbatim>\<open>installedPkgs.entries()\<close>, for the entry \<open>iPkg\<close> at index
  \<open>i\<close> of \<open>len\<close> entries. \<^verbatim>\<open>guiPkgs\<close> is the array of the store. The versions of the entry
  are read only when the catalog has its \<open>full_name\<close>, and before the store is changed.
\<close>

definition init_entry :: "nat \<Rightarrow> nat \<Rightarrow> received_entry \<Rightarrow> store \<Rightarrow> thrown + store" where
  "init_entry len i iPkg s =
     (case (case find (\<lambda>p. Package.full_name p = entry_full_name iPkg) (packages s) of
              Some pkg \<Rightarrow>
                (case entry_installed_versions iPkg of
                   None \<Rightarrow> Inl TypeError
                 | Some versions \<Rightarrow>
                     (let isUpdated = (Some (version pkg) = first_element versions)
                      in Inr (updatePackage (Package.full_name pkg)
                                [Prop_installed_versions (Some versions),
                                 Prop_state (if isUpdated then INSTALLED else NEEDS_UPDATE)] s)))
            | None \<Rightarrow> Inr s) of
        Inl error \<Rightarrow> Inl error
      | Inr s1 \<Rightarrow>
          Inr (s1\<lparr>syncProgress := toFixed2 (js_div (Num (real (i + 1))) (Num (real len)))\<rparr>))"

text \<open>The loop: it ends with the first entry that throws, in the store of that moment.\<close>

fun init_loop :: "nat \<Rightarrow> nat \<Rightarrow> received_entry list \<Rightarrow> store \<Rightarrow> thrown option \<times> store" where
  "init_loop len i [] s = (None, s)"
| "init_loop len i (iPkg # rest) s =
     (case init_entry len i iPkg s of
        Inl error \<Rightarrow> (Some error, s)
      | Inr s1 \<Rightarrow> init_loop len (Suc i) rest s1)"

text \<open>
  The \<^verbatim>\<open>try\<close> block of \<^verbatim>\<open>init\<close> with its \<^verbatim>\<open>catch\<close>, which logs what the fetch, the
  check of the CLI package or the loop throws. The store has no subscriber, so that setting
  it does not throw.
\<close>

definition init_try :: "Package list \<Rightarrow> thrown + received_entry list \<Rightarrow> store \<Rightarrow> store" where
  "init_try pkgs fetched s =
     (case fetched of
        Inl error \<Rightarrow> perform (LogError error) (perform GetInstalledPackages s)
      | Inr installedPkgs \<Rightarrow>
          (let s1 = perform (LogInfo ''sync test for tea-cli'') (perform GetInstalledPackages s);
               distTea = find (\<lambda>p. Package.full_name p = ''tea.xyz'') pkgs;
               installedTeaPkg = find (\<lambda>p. entry_full_name p = ''tea.xyz'') installedPkgs
           in case (case distTea of
                      Some teaPkg \<Rightarrow> checkTeaCLIPackage teaPkg installedTeaPkg s1
                    | None \<Rightarrow> Inr s1) of
                Inl error \<Rightarrow> perform (LogError error) s1
              | Inr s2 \<Rightarrow>
                  (case init_loop (length installedPkgs) 0 installedPkgs
                          (perform (LogInfo ''set NEEDS_UPDATE state to pkgs'') s2) of
                     (Some error, s3) \<Rightarrow> perform (LogError error) s3
                   | (None, s3) \<Rightarrow> s3)))"

text \<open>
  The part of \<^verbatim>\<open>init\<close> up to its first \<^verbatim>\<open>await\<close>: the flag is tested and set before
  the catalog is asked for. The result says whether the call goes on to initialize.
\<close>

definition init_begin :: "store \<Rightarrow> bool \<times> store" where
  "init_begin s =
     (let s1 = perform (LogInfo ''packages store: try initialize'') s
      in if \<not> initialized s1
         then (True,
               perform GetDistPackages
                 ((perform (LogInfo ''packages store: initializing...'') s1)
                    \<lparr>initialized := True\<rparr>))
         else (False, s1))"

text \<open>
  The rest of an initializing call, from the outcome of \<^verbatim>\<open>getDistPackages\<close> on. A
  rejection of that call is outside the \<^verbatim>\<open>try\<close> block and leaves \<^verbatim>\<open>init\<close>.
\<close>

definition init_continue ::
  "thrown + Package list \<Rightarrow> thrown + received_entry list \<Rightarrow> store \<Rightarrow> (thrown + unit) \<times> store"
where
  "init_continue distPackages fetched s =
     (case distPackages of
        Inl error \<Rightarrow> (Inl error, s)
      | Inr pkgs \<Rightarrow>
          (let guiPkgs = map toGUIPackage pkgs;
               s1 = perform (LogInfoNum ''initialized packages store with '' (length guiPkgs))
                      (s\<lparr>packages := guiPkgs\<rparr>);
               s2 = perform (LogInfo ''initialized packages fuse index'')
                      (perform NewFuse
                         (s1\<lparr>packagesIndex :=
                               Some \<lparr>docs = guiPkgs,
                                     keys = [''name'', ''full_name'', ''desc'', ''categories'']\<rparr>\<rparr>));
               s3 = init_try pkgs fetched s2
           in (Inr (), perform (LogInfo ''packages store: initialized!'') s3)))"

definition init ::
  "thrown + Package list \<Rightarrow> thrown + received_entry list \<Rightarrow> store \<Rightarrow> (thrown + unit) \<times> store"
where
  "init distPackages fetched s =
     (case init_begin s of
        (True, s1) \<Rightarrow> init_continue distPackages fetched s1
      | (False, s1) \<Rightarrow> (Inr (), perform (LogInfo ''packages store: initialized!'') s1))"

subsection \<open>installPkg\<close>

text \<open>
  The part of \<^verbatim>\<open>installPkg\<close> up to its \<^verbatim>\<open>await\<close>: the state is set, the timer of
  \<^verbatim>\<open>withFakeLoader\<close> is started and the native call is made with
  \<^verbatim>\<open>version || pkg.version\<close>, where the undefined and the empty string are falsy.
\<close>

definition installPkg_begin :: "GUIPackage \<Rightarrow> string option \<Rightarrow> store \<Rightarrow> store" where
  "installPkg_begin pkg version_arg s =
     (let new_state = (if state pkg = NEEDS_UPDATE then UPDATING else INSTALLING);
          s1 = updatePackage (Package.full_name pkg) [Prop_state new_state] s
      in perform
           (InstallPackage pkg
              (case version_arg of
                 None \<Rightarrow> version pkg
               | Some v \<Rightarrow> if v = [] then version pkg else v)) s1)"

text \<open>The \<open>n\<close> runs of the timer's callback that happen while the native call is awaited.\<close>

fun fakeTimer_ticks :: "GUIPackage \<Rightarrow> nat \<Rightarrow> store \<Rightarrow> store" where
  "fakeTimer_ticks pkg 0 s = s"
| "fakeTimer_ticks pkg (Suc n) s =
     updatePackage (Package.full_name pkg)
       [Prop_install_progress_percentage (Some (reported_progress pkg (Suc n)))]
       (fakeTimer_ticks pkg n s)"

text \<open>
  The rest of \<^verbatim>\<open>installPkg\<close>, from the outcome of the native call on: the end of the
  \<^verbatim>\<open>try\<close> block or the \<^verbatim>\<open>catch\<close> block, then the \<^verbatim>\<open>finally\<close> block.
\<close>

definition installPkg_settle ::
  "GUIPackage \<Rightarrow> thrown + unit \<Rightarrow> store \<Rightarrow> (thrown + unit) \<times> store"
where
  "installPkg_settle pkg outcome s =
     (let s1 =
            (case outcome of
               Inr _ \<Rightarrow>
                 updatePackage (Package.full_name pkg) [Prop_state INSTALLED]
                   (perform (TrackInstall (Package.full_name pkg)) s)
             | Inl error \<Rightarrow>
                 (let message = (case error of Error m \<Rightarrow> m | NonError _ \<Rightarrow> ''Unknown Error'')
                  in perform
                       (TrackInstallFailed (Package.full_name pkg)
                          (if message = [] then ''unknown'' else message)) s))
      in (Inr (),
          updatePackage (Package.full_name pkg)
            [Prop_install_progress_percentage (Some (Num 100))] s1))"

definition installPkg ::
  "GUIPackage \<Rightarrow> string option \<Rightarrow> nat \<Rightarrow> thrown + unit \<Rightarrow> store \<Rightarrow> (thrown + unit) \<times> store"
where
  "installPkg pkg version_arg ticks outcome s =
     installPkg_settle pkg outcome (fakeTimer_ticks pkg ticks (installPkg_begin pkg version_arg s))"

subsection \<open>search\<close>

text \<open>
  The method \<^verbatim>\<open>search\<close> of the index belongs to the library \<^verbatim>\<open>fuse.js\<close>; it is the
  argument \<open>fuse_search\<close>, a function of the index, of the array the index refers to, of
  the term and of the limit. The limit is 5 when the caller gives none.
\<close>

definition search ::
  "(Fuse \<Rightarrow> GUIPackage list \<Rightarrow> string \<Rightarrow> number \<Rightarrow> FuseResult list) \<Rightarrow>
   store \<Rightarrow> string \<Rightarrow> number option \<Rightarrow> GUIPackage list"
where
  "search fuse_search s search_term limit_arg =
     (let limit = (case limit_arg of None \<Rightarrow> Num 5 | Some l \<Rightarrow> l)
      in if search_term = [] \<or> packagesIndex s = None then []
         else (case packagesIndex s of
                 Some index \<Rightarrow> map item (fuse_search index (packages s) search_term limit)
               | None \<Rightarrow> []))"

subsection \<open>Example inputs\<close>

definition example_package :: "string \<Rightarrow> string \<Rightarrow> Package" where
  "example_package fn v =
     \<lparr>Package.full_name = fn, name = fn, slug = fn, desc = [], categories = [],
      homepage = [], version = v, bottles = None\<rparr>"

definition example_gui :: "string \<Rightarrow> string \<Rightarrow> PackageStates \<Rightarrow> GUIPackage" where
  "example_gui fn v st =
     \<lparr>Package.full_name = fn, name = fn, slug = fn, desc = [], categories = [],
      homepage = [], version = v, bottles = None, state = st, installed_versions = None,
      install_progress_percentage = None, synced = None\<rparr>"

definition example_store :: store where
  "example_store =
     initPackagesStore\<lparr>packages :=
       [example_gui ''a.org'' ''1.0.0'' AVAILABLE,
        example_gui ''b.org'' ''2.0.0'' NEEDS_UPDATE,
        example_gui ''b.org'' ''3.0.0'' AVAILABLE]\<rparr>"


text \<open>An array the index of which is a snapshot of it, and a search that matches everything.\<close>

definition example_indexed_store :: store where
  "example_indexed_store =
     example_store\<lparr>initialized := True,
       packagesIndex := Some \<lparr>docs = packages example_store, keys = [''name'']\<rparr>\<rparr>"

definition example_fuse_search ::
  "Fuse \<Rightarrow> GUIPackage list \<Rightarrow> string \<Rightarrow> number \<Rightarrow> FuseResult list"
where
  "example_fuse_search index live search_term limit =
     map (\<lambda>i. \<lparr>item = live ! i, refIndex = i\<rparr>) [0..<length live]"

definition example_bottled :: "nat \<Rightarrow> GUIPackage" where
  "example_bottled n =
     (example_gui ''a.org'' ''1.0.0'' INSTALLING)\<lparr>bottles := Some [\<lparr>bytes = n\<rparr>]\<rparr>"

text \<open>A catalog with a repeated \<open>full_name\<close> and an installed list with one.\<close>

definition example_catalog :: "Package list" where
  "example_catalog =
     [example_package ''a.org'' ''1.0.0'', example_package ''b.org'' ''2.0.0'',
      example_package ''a.org'' ''1.0.0'', example_package ''c.org'' ''3.0.0'']"

definition example_installed :: "InstalledPackage list" where
  "example_installed =
     [\<lparr>InstalledPackage.full_name = ''b.org'', installed_versions = [''2.0.0'']\<rparr>,
      \<lparr>InstalledPackage.full_name = ''a.org'', installed_versions = [''1.0.0'', ''0.9.0'']\<rparr>,
      \<lparr>InstalledPackage.full_name = ''b.org'', installed_versions = [''1.9.0'']\<rparr>]"




subsection \<open>Descriptions used by the properties\<close>

text \<open>A sequence of calls of \<^verbatim>\<open>init\<close> on one store, each with the outcomes of its fetches.\<close>

fun init_calls ::
  "((thrown + Package list) \<times> (thrown + received_entry list)) list \<Rightarrow> store \<Rightarrow> store"
where
  "init_calls [] s = s"
| "init_calls ((distPackages, fetched) # calls) s =
     init_calls calls (snd (init distPackages fetched s))"

text \<open>
  The record expected at index \<open>k\<close> of the store after \<^verbatim>\<open>init\<close>: when the catalog entry is
  the first one with its \<open>full_name\<close> and the installed list has entries with that
  \<open>full_name\<close>, the last of them gives the installed versions and the state; otherwise the
  record is the catalog entry in state \<open>AVAILABLE\<close>.
\<close>

definition annotated :: "Package list \<Rightarrow> InstalledPackage list \<Rightarrow> nat \<Rightarrow> GUIPackage" where
  "annotated pkgs installedPkgs k =
     (case (if findIndex (\<lambda>p. Package.full_name p = Package.full_name (pkgs ! k)) pkgs = Some k
            then find (\<lambda>e. InstalledPackage.full_name e = Package.full_name (pkgs ! k))
                   (rev installedPkgs)
            else None) of
        Some e \<Rightarrow>
          (toGUIPackage (pkgs ! k))
            \<lparr>GUIPackage.installed_versions := Some (InstalledPackage.installed_versions e),
              state := (if Some (version (pkgs ! k)) = first_element (InstalledPackage.installed_versions e)
                then INSTALLED else NEEDS_UPDATE)\<rparr>
      | None \<Rightarrow> toGUIPackage (pkgs ! k))"

section \<open>Properties\<close>

subsection \<open>Finding the first match\<close>

lemma findIndex_Some_iff:
  "findIndex P xs = Some i \<longleftrightarrow> i < length xs \<and> P (xs ! i) \<and> (\<forall>j<i. \<not> P (xs ! j))"
proof (induction xs arbitrary: i)
  case Nil
  then show ?case by simp
next
  case (Cons x xs)
  show ?case
  proof (cases "P x")
    case True
    then show ?thesis by (cases i) auto
  next
    case False
    show ?thesis
    proof (cases i)
      case 0
      with False show ?thesis by auto
    next
      case (Suc k)
      have "(\<forall>j<Suc k. \<not> P ((x # xs) ! j)) \<longleftrightarrow> (\<forall>j<k. \<not> P (xs ! j))"
        using False by (auto simp: less_Suc_eq_0_disj)
      with False Suc Cons.IH [of k] show ?thesis by auto
    qed
  qed
qed






subsection \<open>search\<close>

text \<open>
  Claim C10. \<^verbatim>\<open>search\<close> returns the empty list when the term is empty or the index has
  not been built, whatever the limit (given or not) and whatever the library's search would
  return; the index of a new store has not been built.
\<close>

theorem search_empty_without_term_or_index:
  "(search_term = [] \<or> packagesIndex s = None \<longrightarrow>
      search fuse_search s search_term limit_arg = []) \<and>
   search fuse_search initPackagesStore search_term limit_arg = []"
  by (simp add: search_def initPackagesStore_def)

theorem search_empty_without_term_or_index_witness:
  "search example_fuse_search example_indexed_store [] (Some (Num 3)) = [] \<and>
   search example_fuse_search example_store ''b'' None = [] \<and>
   search example_fuse_search example_indexed_store ''b'' None \<noteq> []"
proof -
  have "search example_fuse_search example_indexed_store [] (Some (Num 3)) = []"
    using search_empty_without_term_or_index
            [of "[]" example_indexed_store example_fuse_search "Some (Num 3)"]
    by simp
  moreover have "packagesIndex example_store = None"
    by (simp add: example_store_def initPackagesStore_def)
  then have "search example_fuse_search example_store ''b'' None = []"
    using search_empty_without_term_or_index [of "''b''" example_store example_fuse_search None]
    by simp
  moreover have "search example_fuse_search example_indexed_store ''b'' None \<noteq> []"
    by (simp add: search_def example_indexed_store_def example_store_def
          example_fuse_search_def upt_conv_Cons)
  ultimately show ?thesis by simp
qed


subsection \<open>The increment of the fake loader\<close>

lemma size_no_bottles:
  "bottles pkg = None \<or> bottles pkg = Some [] \<Longrightarrow> withFakeLoader_size pkg = Num (assumedDlSpeedMb * 10)"
  by (auto simp: withFakeLoader_size_def)

lemma size_first_bottle:
  "bottles pkg = Some (b # bs) \<Longrightarrow> withFakeLoader_size pkg = Num (real (bytes b))"
  by (simp add: withFakeLoader_size_def)

text \<open>
  Claim C6. The assumed speed is 3 * 1024 * 1024 bytes per second, and the increment of a
  tick is \<^verbatim>\<open>1 / (size / assumedDlSpeedMb) / 10\<close> in the arithmetic of numbers, where
  the size is the byte size of the first bottle when the package has one (for a positive
  size the increment is that quotient of reals, for the size 0 it is Infinity) and
  \<^verbatim>\<open>assumedDlSpeedMb * 10\<close> when it has none, which gives the time 10 and the increment 1/100.
\<close>

theorem withFakeLoader_increment_formula:
  "assumedDlSpeedMb = 3 * 1024 * 1024 \<and>
   withFakeLoader_increment pkg =
     js_div (js_div (Num 1) (js_div (withFakeLoader_size pkg) (Num assumedDlSpeedMb))) (Num 10) \<and>
   (\<forall>b bs. bottles pkg = Some (b # bs) \<longrightarrow>
      withFakeLoader_size pkg = Num (real (bytes b)) \<and>
      (0 < bytes b \<longrightarrow>
         withFakeLoader_increment pkg = Num (1 / (real (bytes b) / assumedDlSpeedMb) / 10)) \<and>
      (bytes b = 0 \<longrightarrow> withFakeLoader_increment pkg = PosInfinity)) \<and>
   (bottles pkg = None \<or> bottles pkg = Some [] \<longrightarrow>
      withFakeLoader_size pkg = Num (assumedDlSpeedMb * 10) \<and>
      withFakeLoader_eta pkg = Num 10 \<and>
      withFakeLoader_increment pkg = Num (1 / 100))"
proof -
  have speed: "assumedDlSpeedMb = 3 * 1024 * 1024"
    by (simp add: assumedDlSpeedMb_def)
  have unfolded: "withFakeLoader_increment pkg =
     js_div (js_div (Num 1) (js_div (withFakeLoader_size pkg) (Num assumedDlSpeedMb))) (Num 10)"
    by (simp add: withFakeLoader_increment_def withFakeLoader_eta_def)
  have bottled: "withFakeLoader_size pkg = Num (real (bytes b)) \<and>
      (0 < bytes b \<longrightarrow>
         withFakeLoader_increment pkg = Num (1 / (real (bytes b) / assumedDlSpeedMb) / 10)) \<and>
      (bytes b = 0 \<longrightarrow> withFakeLoader_increment pkg = PosInfinity)"
    if "bottles pkg = Some (b # bs)" for b bs
    using that
    by (simp add: unfolded size_first_bottle assumedDlSpeedMb_def signed_infinity_def)
  have unbottled: "withFakeLoader_size pkg = Num (assumedDlSpeedMb * 10) \<and>
      withFakeLoader_eta pkg = Num 10 \<and>
      withFakeLoader_increment pkg = Num (1 / 100)"
    if "bottles pkg = None \<or> bottles pkg = Some []"
    using size_no_bottles [OF that]
    by (simp add: withFakeLoader_increment_def withFakeLoader_eta_def assumedDlSpeedMb_def)
  from speed unfolded bottled unbottled show ?thesis
    by blast
qed


theorem withFakeLoader_increment_formula_witness:
  "withFakeLoader_increment (example_bottled 6291456) = Num (1 / 20) \<and>
   withFakeLoader_increment (example_bottled 0) = PosInfinity \<and>
   withFakeLoader_increment (example_gui ''a.org'' ''1.0.0'' INSTALLING) = Num (1 / 100)"
proof -
  have six: "bottles (example_bottled 6291456) = Some (\<lparr>bytes = 6291456\<rparr> # [])"
    and zero: "bottles (example_bottled 0) = Some (\<lparr>bytes = 0\<rparr> # [])"
    by (simp_all add: example_bottled_def)
  have none: "bottles (example_gui ''a.org'' ''1.0.0'' INSTALLING) = None \<or>
              bottles (example_gui ''a.org'' ''1.0.0'' INSTALLING) = Some []"
    by (simp add: example_gui_def)
  from withFakeLoader_increment_formula [of "example_bottled 6291456"] six
  have "withFakeLoader_increment (example_bottled 6291456) =
        Num (1 / (real (bytes \<lparr>bytes = 6291456\<rparr>) / assumedDlSpeedMb) / 10)"
    by simp
  then have a: "withFakeLoader_increment (example_bottled 6291456) = Num (1 / 20)"
    by (simp add: assumedDlSpeedMb_def)
  from withFakeLoader_increment_formula [of "example_bottled 0"] zero
  have b: "withFakeLoader_increment (example_bottled 0) = PosInfinity"
    by (simp add: signed_infinity_def)
  from withFakeLoader_increment_formula [of "example_gui ''a.org'' ''1.0.0'' INSTALLING"] none
  have c: "withFakeLoader_increment (example_gui ''a.org'' ''1.0.0'' INSTALLING) = Num (1 / 100)"
    by blast
  from a b c show ?thesis by simp
qed

subsection \<open>The progress of the fake loader\<close>

lemma fakeTimer_tick_Num:
  "fakeTimer_tick (Num c) (Num p) = Num (p + (100 - p) * c)"
  by (simp add: fakeTimer_tick_def js_sub_def)

lemma fakeLoadingProgress_closed_form:
  assumes "withFakeLoader_increment pkg = Num c"
  shows "fakeLoadingProgress pkg n = Num (100 - 99 * (1 - c) ^ n)"
proof (induction n)
  case 0
  show ?case by simp
next
  case (Suc n)
  have "fakeLoadingProgress pkg (Suc n) =
        Num ((100 - 99 * (1 - c) ^ n) + (100 - (100 - 99 * (1 - c) ^ n)) * c)"
    using assms Suc by (simp add: fakeTimer_tick_Num)
  also have "(100 - 99 * (1 - c) ^ n) + (100 - (100 - 99 * (1 - c) ^ n)) * c =
             100 - 99 * (1 - c) ^ Suc n"
    by (simp add: algebra_simps)
  finally show ?case .
qed

text \<open>
  When the increment is a real number strictly between 0 and 1, the progress is strictly
  increasing, stays below 100 and tends to 100. This is so for a package without bottles and
  for one whose first bottle has more than 314572 bytes.
\<close>

lemma fakeLoadingProgress_approaches_100:
  assumes "withFakeLoader_increment pkg = Num c" and "0 < c" and "c < 1"
  shows "\<exists>f. (\<forall>n. fakeLoadingProgress pkg n = Num (f n)) \<and>
             (\<forall>n. f n < f (Suc n)) \<and> (\<forall>n. f n < 100) \<and> f \<longlonglongrightarrow> 100"
proof -
  define q where "q = 1 - c"
  define f where "f n = 100 - 99 * q ^ n" for n
  have q: "0 < q" "q < 1"
    using assms by (simp_all add: q_def)
  have vals: "\<forall>n. fakeLoadingProgress pkg n = Num (f n)"
    using fakeLoadingProgress_closed_form [OF assms(1)] by (simp add: f_def q_def)
  have "q ^ Suc n < q ^ n" for n
  proof -
    have "0 < q ^ n"
      using q(1) by simp
    then have "q * q ^ n < 1 * q ^ n"
      using q(2) by (intro mult_strict_right_mono)
    then show ?thesis by simp
  qed
  then have increasing: "\<forall>n. f n < f (Suc n)"
    by (simp add: f_def)
  have below: "\<forall>n. f n < 100"
    using q by (simp add: f_def)
  have pw: "(\<lambda>n. q ^ n) \<longlonglongrightarrow> 0"
    using q by (intro LIMSEQ_realpow_zero) simp_all
  have "(\<lambda>n. 100 - 99 * q ^ n) \<longlonglongrightarrow> 100 - 99 * 0"
    by (rule tendsto_diff [OF tendsto_const tendsto_mult [OF tendsto_const pw]])
  then have "f \<longlonglongrightarrow> 100"
    by (simp add: f_def [abs_def])
  with vals increasing below show ?thesis
    by blast
qed

lemma increment_without_bottles_small:
  "bottles pkg = None \<or> bottles pkg = Some [] \<Longrightarrow>
   withFakeLoader_increment pkg = Num (1 / 100)"
  using size_no_bottles [of pkg]
  by (simp add: withFakeLoader_increment_def withFakeLoader_eta_def assumedDlSpeedMb_def)

lemma increment_large_bottle_small:
  assumes "bottles pkg = Some (b # bs)" and "314572 < bytes b"
  shows "\<exists>c. withFakeLoader_increment pkg = Num c \<and> 0 < c \<and> c < 1"
proof -
  have "10 * real (bytes b) > 3145728"
    using assms(2) by linarith
  then show ?thesis
    using assms size_first_bottle [OF assms(1)]
    by (simp add: withFakeLoader_increment_def withFakeLoader_eta_def assumedDlSpeedMb_def)
qed

text \<open>
  Claim C2 says that for every package the progress of \<^verbatim>\<open>withFakeLoader\<close> grows on every
  tick and stays below 100. The code does not do so for a small first bottle, where the
  increment is 1 or more. For a first bottle of 100000 bytes the increment is 3.145728: the first tick takes the progress from 1 to 312.427072
  (reported as 312.43) and the second one to a negative number. For a first bottle of 0
  bytes the increment is Infinity, the progress is Infinity after the first tick and NaN
  after the second.
\<close>

theorem fakeLoadingProgress_small_bottle_overshoots:
  "withFakeLoader_increment (example_bottled 100000) = Num (49152 / 15625) \<and>
   fakeLoadingProgress (example_bottled 100000) 1 = Num (4881673 / 15625) \<and>
   (100 :: real) < 4881673 / 15625 \<and>
   reported_progress (example_bottled 100000) 1 = Num (31243 / 100) \<and>
   fakeLoadingProgress (example_bottled 100000) 2 = Num (- (86867850671 / 244140625)) \<and>
   fakeLoadingProgress (example_bottled 0) 1 = PosInfinity \<and>
   fakeLoadingProgress (example_bottled 0) 2 = NaN"
proof -
  have inc: "withFakeLoader_increment (example_bottled 100000) = Num (49152 / 15625)"
    by (simp add: withFakeLoader_increment_def withFakeLoader_eta_def withFakeLoader_size_def
          example_bottled_def assumedDlSpeedMb_def)
  have one: "fakeLoadingProgress (example_bottled 100000) (Suc 0) = Num (4881673 / 15625)"
    by (simp add: inc fakeTimer_tick_Num)
  have "fakeLoadingProgress (example_bottled 100000) (Suc (Suc 0)) =
        fakeTimer_tick (withFakeLoader_increment (example_bottled 100000))
          (fakeLoadingProgress (example_bottled 100000) (Suc 0))"
    by (rule fakeLoadingProgress.simps(2))
  also have "\<dots> = fakeTimer_tick (Num (49152 / 15625)) (Num (4881673 / 15625))"
    by (simp only: inc one)
  also have "\<dots> = Num (- (86867850671 / 244140625))"
    by (simp add: fakeTimer_tick_Num)
  finally have two: "fakeLoadingProgress (example_bottled 100000) (Suc (Suc 0)) =
             Num (- (86867850671 / 244140625))" .
  have rep: "reported_progress (example_bottled 100000) 1 = Num (31243 / 100)"
    using one by (simp add: reported_progress_def round_def)
  have inc0: "withFakeLoader_increment (example_bottled 0) = PosInfinity"
    by (simp add: withFakeLoader_increment_def withFakeLoader_eta_def withFakeLoader_size_def
          example_bottled_def assumedDlSpeedMb_def signed_infinity_def)
  have one0: "fakeLoadingProgress (example_bottled 0) (Suc 0) = PosInfinity"
    by (simp add: inc0 fakeTimer_tick_def js_sub_def signed_infinity_def)
  have "fakeLoadingProgress (example_bottled 0) (Suc (Suc 0)) =
        fakeTimer_tick (withFakeLoader_increment (example_bottled 0))
          (fakeLoadingProgress (example_bottled 0) (Suc 0))"
    by (rule fakeLoadingProgress.simps(2))
  also have "\<dots> = fakeTimer_tick PosInfinity PosInfinity"
    by (simp only: inc0 one0)
  also have "\<dots> = NaN"
    by (simp add: fakeTimer_tick_def js_sub_def)
  finally have two0: "fakeLoadingProgress (example_bottled 0) (Suc (Suc 0)) = NaN" .
  from inc one two rep one0 two0 show ?thesis
    by (simp add: numeral_2_eq_2)
qed

subsection \<open>init: the parts of the store it leaves alone\<close>

lemma updatePackage_fields [simp]:
  "initialized (updatePackage fn props s) = initialized s"
  "syncProgress (updatePackage fn props s) = syncProgress s"
  "requireTeaCli (updatePackage fn props s) = requireTeaCli s"
  "packagesIndex (updatePackage fn props s) = packagesIndex s"
  "effects (updatePackage fn props s) = effects s"
  by (simp_all add: updatePackage_def)

lemma perform_fields [simp]:
  "initialized (perform e s) = initialized s"
  "syncProgress (perform e s) = syncProgress s"
  "requireTeaCli (perform e s) = requireTeaCli s"
  "packagesIndex (perform e s) = packagesIndex s"
  "packages (perform e s) = packages s"
  "effects (perform e s) = effects s @ [e]"
  by (simp_all add: perform_def)

lemma init_entry_fields:
  assumes "init_entry len i iPkg s = Inr s1"
  shows "initialized s1 = initialized s" and "requireTeaCli s1 = requireTeaCli s"
    and "packagesIndex s1 = packagesIndex s" and "effects s1 = effects s"
  using assms by (auto simp: init_entry_def Let_def split: option.splits sum.splits)

lemma init_loop_fields:
  assumes "init_loop len i installedPkgs s = (r, s1)"
  shows "initialized s1 = initialized s \<and> requireTeaCli s1 = requireTeaCli s \<and>
         packagesIndex s1 = packagesIndex s \<and> effects s1 = effects s"
  using assms
proof (induction installedPkgs arbitrary: i s)
  case Nil
  then show ?case by simp
next
  case (Cons iPkg rest)
  show ?case
  proof (cases "init_entry len i iPkg s")
    case (Inl error)
    with Cons.prems show ?thesis by simp
  next
    case (Inr s2)
    with Cons.prems have "init_loop len (Suc i) rest s2 = (r, s1)"
      by simp
    from Cons.IH [OF this] init_entry_fields [OF Inr] show ?thesis
      by simp
  qed
qed

text \<open>What the \<^verbatim>\<open>try\<close> block adds to the effects: no request for the catalog, no index.\<close>

lemma init_try_effects:
  "initialized (init_try pkgs fetched s) = initialized s \<and>
   packagesIndex (init_try pkgs fetched s) = packagesIndex s \<and>
   (\<exists>es. effects (init_try pkgs fetched s) = effects s @ es \<and>
         GetDistPackages \<notin> set es \<and> NewFuse \<notin> set es)"
proof (cases fetched)
  case (Inl error)
  then show ?thesis
    by (simp add: init_try_def)
next
  case (Inr installedPkgs)
  define s1 where "s1 = perform (LogInfo ''sync test for tea-cli'') (perform GetInstalledPackages s)"
  define checked where "checked =
     (case find (\<lambda>p. Package.full_name p = ''tea.xyz'') pkgs of
        Some teaPkg \<Rightarrow>
          checkTeaCLIPackage teaPkg
            (find (\<lambda>p. entry_full_name p = ''tea.xyz'') installedPkgs) s1
      | None \<Rightarrow> Inr s1)"
  have unfolded: "init_try pkgs fetched s =
     (case checked of
        Inl error \<Rightarrow> perform (LogError error) s1
      | Inr s2 \<Rightarrow>
          (case init_loop (length installedPkgs) 0 installedPkgs
                  (perform (LogInfo ''set NEEDS_UPDATE state to pkgs'') s2) of
             (Some error, s3) \<Rightarrow> perform (LogError error) s3
           | (None, s3) \<Rightarrow> s3))"
    unfolding s1_def checked_def by (simp add: Inr init_try_def Let_def)
  have s1: "initialized s1 = initialized s" "packagesIndex s1 = packagesIndex s"
    "effects s1 = effects s @ [GetInstalledPackages, LogInfo ''sync test for tea-cli'']"
    by (simp_all add: s1_def)
  show ?thesis
  proof (cases checked)
    case (Inl error)
    then show ?thesis
      by (simp add: unfolded s1)
  next
    case (Inr s2)
    then have s2: "initialized s2 = initialized s1" "packagesIndex s2 = packagesIndex s1"
      "\<exists>es. effects s2 = effects s1 @ es \<and> GetDistPackages \<notin> set es \<and> NewFuse \<notin> set es"
      by (auto simp: checked_def checkTeaCLIPackage_def Let_def split: option.splits)
    obtain r s3 where loop: "init_loop (length installedPkgs) 0 installedPkgs
            (perform (LogInfo ''set NEEDS_UPDATE state to pkgs'') s2) = (r, s3)"
      by (cases "init_loop (length installedPkgs) 0 installedPkgs
            (perform (LogInfo ''set NEEDS_UPDATE state to pkgs'') s2)")
    from init_loop_fields [OF loop]
    have s3: "initialized s3 = initialized s2" "packagesIndex s3 = packagesIndex s2"
      "effects s3 = effects s2 @ [LogInfo ''set NEEDS_UPDATE state to pkgs'']"
      by simp_all
    from s2(3) obtain es where es: "effects s2 = effects s1 @ es"
      "GetDistPackages \<notin> set es" "NewFuse \<notin> set es"
      by blast
    show ?thesis
      using Inr loop s1 s2(1,2) s3 es by (cases r) (simp_all add: unfolded)
  qed
qed

lemma init_try_fields [simp]:
  "initialized (init_try pkgs fetched s) = initialized s"
  "packagesIndex (init_try pkgs fetched s) = packagesIndex s"
  using init_try_effects [of pkgs fetched s] by simp_all


lemma init_begin_initialized: "initialized (snd (init_begin s))"
  by (simp add: init_begin_def Let_def)

lemma init_continue_initialized:
  "initialized (snd (init_continue distPackages fetched s)) = initialized s"
  by (simp add: init_continue_def Let_def split: sum.splits)

lemma init_initialized: "initialized (snd (init distPackages fetched s))"
proof (cases "init_begin s")
  case (Pair go s1)
  then have "initialized s1"
    using init_begin_initialized [of s] by simp
  with Pair show ?thesis
    by (cases go) (simp_all add: init_def init_continue_initialized)
qed

lemma init_when_initialized:
  assumes "initialized s"
  shows "init distPackages fetched s =
           (Inr (), s\<lparr>effects := effects s @
              [LogInfo ''packages store: try initialize'',
               LogInfo ''packages store: initialized!'']\<rparr>)"
  using assms by (simp add: init_def init_begin_def perform_def)

lemma init_never_throws_after_catalog:
  "fst (init (Inr pkgs) fetched s) = Inr ()"
  by (simp add: init_def init_begin_def init_continue_def Let_def)

lemma toGUIPackage_state: "state (toGUIPackage p) = AVAILABLE"
  by (simp add: toGUIPackage_def)


subsection \<open>init: at most once\<close>

lemma count_list_snoc: "count_list (xs @ [x]) y = count_list xs y + (if x = y then 1 else 0)"
  by (induction xs) simp_all

lemma count_list_append_absent: "y \<notin> set ys \<Longrightarrow> count_list (xs @ ys) y = count_list xs y"
  by (induction xs) simp_all

lemma init_try_count:
  assumes "e = GetDistPackages \<or> e = NewFuse"
  shows "count_list (effects (init_try pkgs fetched s)) e = count_list (effects s) e"
proof -
  from init_try_effects [of pkgs fetched s]
  obtain es where "effects (init_try pkgs fetched s) = effects s @ es"
    "GetDistPackages \<notin> set es" "NewFuse \<notin> set es"
    by blast
  with assms show ?thesis
    by (auto simp: count_list_append_absent)
qed

lemma init_count:
  assumes "e = GetDistPackages \<or> e = NewFuse"
  shows "count_list (effects (snd (init distPackages fetched s))) e \<le>
           count_list (effects s) e + (if initialized s then 0 else 1)"
  using assms
  by (auto simp: init_def init_begin_def init_continue_def Let_def init_try_count
        count_list_snoc split: sum.splits)

lemma init_calls_count:
  assumes "e = GetDistPackages \<or> e = NewFuse"
  shows "count_list (effects (init_calls calls s)) e \<le>
           count_list (effects s) e + (if initialized s then 0 else 1)"
proof (induction calls arbitrary: s)
  case Nil
  show ?case by simp
next
  case (Cons call calls)
  obtain distPackages fetched where call: "call = (distPackages, fetched)"
    by (cases call)
  let ?s' = "snd (init distPackages fetched s)"
  have "count_list (effects (init_calls calls ?s')) e \<le> count_list (effects ?s') e"
    using Cons.IH [of ?s'] init_initialized [of distPackages fetched s] by simp
  also have "\<dots> \<le> count_list (effects s) e + (if initialized s then 0 else 1)"
    using assms by (rule init_count)
  finally show ?case
    by (simp add: call)
qed

lemma init_calls_once:
  "count_list (effects (init_calls calls initPackagesStore)) GetDistPackages \<le> 1 \<and>
   count_list (effects (init_calls calls initPackagesStore)) NewFuse \<le> 1"
  using init_calls_count [of GetDistPackages calls initPackagesStore]
    init_calls_count [of NewFuse calls initPackagesStore]
  by (simp add: initPackagesStore_def)

text \<open>
  Claim C9. A call of \<^verbatim>\<open>init\<close> that has started has set the flag, and so has one that
  has returned or thrown. A call on a store whose flag is set only logs its two lines: it
  asks for no catalog, builds no index and changes no other part of the store; so does every
  call that follows another call. In any sequence of calls on a new store the catalog is
  asked for at most once and the index is built at most once.
\<close>

theorem init_only_once:
  "initialized (snd (init_begin s)) \<and>
   initialized (snd (init distPackages fetched s)) \<and>
   (initialized s \<longrightarrow>
      init distPackages fetched s =
        (Inr (), s\<lparr>effects := effects s @
           [LogInfo ''packages store: try initialize'',
            LogInfo ''packages store: initialized!'']\<rparr>)) \<and>
   init distPackages' fetched' (snd (init distPackages fetched s)) =
     (Inr (), (snd (init distPackages fetched s))
        \<lparr>effects := effects (snd (init distPackages fetched s)) @
           [LogInfo ''packages store: try initialize'',
            LogInfo ''packages store: initialized!'']\<rparr>) \<and>
   count_list (effects (init_calls calls initPackagesStore)) GetDistPackages \<le> 1 \<and>
   count_list (effects (init_calls calls initPackagesStore)) NewFuse \<le> 1"
  using init_begin_initialized [of s] init_initialized [of distPackages fetched s]
    init_when_initialized [of s distPackages fetched]
    init_when_initialized [of "snd (init distPackages fetched s)" distPackages' fetched']
    init_calls_once [of calls]
  by blast

theorem init_only_once_witness:
  "initialized example_indexed_store \<and>
   init (Inr example_catalog) (Inr (map WellTyped example_installed)) example_indexed_store =
     (Inr (), example_indexed_store\<lparr>effects :=
        [LogInfo ''packages store: try initialize'',
         LogInfo ''packages store: initialized!'']\<rparr>)"
proof -
  have i: "initialized example_indexed_store" and e: "effects example_indexed_store = []"
    by (simp_all add: example_indexed_store_def example_store_def initPackagesStore_def)
  from init_only_once [of example_indexed_store "Inr example_catalog"
         "Inr (map WellTyped example_installed)"] i e
  show ?thesis by simp
qed

subsection \<open>init: the annotation of the catalog\<close>

lemma find_via_findIndex: "find P xs = map_option (\<lambda>i. xs ! i) (findIndex P xs)"
  by (induction xs) (simp_all add: option.map_comp o_def)

lemma findIndex_map: "findIndex P (map f xs) = findIndex (\<lambda>x. P (f x)) xs"
  by (induction xs) simp_all

lemma findIndex_same_names:
  assumes "length G = length pkgs"
    and "\<forall>k<length pkgs. Package.full_name (G ! k) = Package.full_name (pkgs ! k)"
  shows "findIndex (\<lambda>p. Package.full_name p = x) G =
         findIndex (\<lambda>p. Package.full_name p = x) pkgs"
proof -
  have "map Package.full_name G = map Package.full_name pkgs"
    using assms by (simp add: list_eq_iff_nth_eq)
  then have "findIndex (\<lambda>n. n = x) (map Package.full_name G) =
             findIndex (\<lambda>n. n = x) (map Package.full_name pkgs)"
    by simp
  then show ?thesis
    by (simp add: findIndex_map)
qed

lemma init_entry_WellTyped:
  "\<exists>s1. init_entry len i (WellTyped e) s = Inr s1 \<and>
     packages s1 =
     (case findIndex (\<lambda>p. Package.full_name p = InstalledPackage.full_name e) (packages s) of
        None \<Rightarrow> packages s
      | Some k \<Rightarrow>
          (packages s)[k := (packages s ! k)
             \<lparr>GUIPackage.installed_versions := Some (InstalledPackage.installed_versions e),
              state := (if Some (version (packages s ! k)) =
                      first_element (InstalledPackage.installed_versions e)
                 then INSTALLED else NEEDS_UPDATE)\<rparr>])"
proof (cases "findIndex (\<lambda>p. Package.full_name p = InstalledPackage.full_name e) (packages s)")
  case None
  then show ?thesis
    by (simp add: init_entry_def find_via_findIndex)
next
  case (Some k)
  then have name: "Package.full_name (packages s ! k) = InstalledPackage.full_name e"
    by (simp add: findIndex_Some_iff)
  show ?thesis
    using Some name
    by (simp add: init_entry_def find_via_findIndex updatePackage_def spread_def Let_def)
qed

lemma annotated_full_name [simp]:
  "Package.full_name (annotated pkgs done k) = Package.full_name (pkgs ! k)"
  by (simp add: annotated_def toGUIPackage_def split: option.splits)

lemma annotated_version [simp]:
  "version (annotated pkgs done k) = version (pkgs ! k)"
  by (simp add: annotated_def toGUIPackage_def split: option.splits)

lemma annotated_snoc_other:
  assumes "findIndex (\<lambda>p. Package.full_name p = InstalledPackage.full_name e) pkgs \<noteq> Some k"
  shows "annotated pkgs (done @ [e]) k = annotated pkgs done k"
proof (cases "findIndex (\<lambda>p. Package.full_name p = Package.full_name (pkgs ! k)) pkgs = Some k")
  case True
  with assms have "InstalledPackage.full_name e \<noteq> Package.full_name (pkgs ! k)"
    by auto
  with True show ?thesis
    by (simp add: annotated_def)
next
  case False
  then show ?thesis
    by (simp add: annotated_def)
qed

lemma annotated_snoc_match:
  assumes "findIndex (\<lambda>p. Package.full_name p = InstalledPackage.full_name e) pkgs = Some k"
  shows "annotated pkgs (done @ [e]) k =
         (annotated pkgs done k)
           \<lparr>GUIPackage.installed_versions := Some (InstalledPackage.installed_versions e),
              state := (if Some (version (pkgs ! k)) = first_element (InstalledPackage.installed_versions e)
               then INSTALLED else NEEDS_UPDATE)\<rparr>"
proof -
  from assms have name: "Package.full_name (pkgs ! k) = InstalledPackage.full_name e"
    by (simp add: findIndex_Some_iff)
  with assms have first: "findIndex (\<lambda>p. Package.full_name p = Package.full_name (pkgs ! k)) pkgs = Some k"
    by simp
  show ?thesis
    using first name by (simp add: annotated_def split: option.splits)
qed

lemma init_entry_annotated:
  assumes len: "length (packages s) = length pkgs"
    and inv: "\<forall>k<length pkgs. packages s ! k = annotated pkgs done k"
  shows "\<exists>s1. init_entry n i (WellTyped e) s = Inr s1 \<and>
         length (packages s1) = length pkgs \<and>
         (\<forall>k<length pkgs. packages s1 ! k = annotated pkgs (done @ [e]) k)"
proof -
  let ?x = "InstalledPackage.full_name e"
  from init_entry_WellTyped [of n i e s]
  obtain s1 where s1: "init_entry n i (WellTyped e) s = Inr s1"
    and p1: "packages s1 =
     (case findIndex (\<lambda>p. Package.full_name p = ?x) (packages s) of
        None \<Rightarrow> packages s
      | Some k \<Rightarrow>
          (packages s)[k := (packages s ! k)
             \<lparr>GUIPackage.installed_versions := Some (InstalledPackage.installed_versions e),
              state := (if Some (version (packages s ! k)) =
                      first_element (InstalledPackage.installed_versions e)
                 then INSTALLED else NEEDS_UPDATE)\<rparr>])"
    by blast
  have idx: "findIndex (\<lambda>p. Package.full_name p = ?x) (packages s) =
             findIndex (\<lambda>p. Package.full_name p = ?x) pkgs"
    using len inv by (intro findIndex_same_names) simp_all
  have "length (packages s1) = length pkgs \<and>
         (\<forall>k<length pkgs. packages s1 ! k = annotated pkgs (done @ [e]) k)"
  proof (cases "findIndex (\<lambda>p. Package.full_name p = ?x) pkgs")
    case None
    then have "packages s1 = packages s"
      using idx by (simp add: p1)
    moreover have "annotated pkgs (done @ [e]) k = annotated pkgs done k" for k
      using None by (intro annotated_snoc_other) simp
    ultimately show ?thesis
      using len inv by simp
  next
    case (Some k0)
    then have k0: "k0 < length pkgs"
      by (simp add: findIndex_Some_iff)
    have upd: "packages s1 =
          (packages s)[k0 := (annotated pkgs done k0)
             \<lparr>GUIPackage.installed_versions := Some (InstalledPackage.installed_versions e),
              state := (if Some (version (pkgs ! k0)) =
                      first_element (InstalledPackage.installed_versions e)
                 then INSTALLED else NEEDS_UPDATE)\<rparr>]"
      using Some idx inv k0 by (simp add: p1)
    have "packages s1 ! k = annotated pkgs (done @ [e]) k"
      if "k < length pkgs" for k
    proof (cases "k = k0")
      case True
      then show ?thesis
        using upd len k0 annotated_snoc_match [OF Some, of "done"] by simp
    next
      case False
      then have "findIndex (\<lambda>p. Package.full_name p = ?x) pkgs \<noteq> Some k"
        using Some by simp
      then have "annotated pkgs (done @ [e]) k = annotated pkgs done k"
        by (rule annotated_snoc_other)
      then show ?thesis
        using upd False inv that by simp
    qed
    then show ?thesis
      using upd len by simp
  qed
  with s1 show ?thesis
    by blast
qed

text \<open>
  The loop over entries of the declared type runs to its end. When they are followed by an
  entry without versions whose \<open>full_name\<close> the catalog has, the loop ends there with a
  \<^verbatim>\<open>TypeError\<close>, in the store that the entries before it have made.
\<close>

lemma init_loop_annotated:
  assumes "length (packages s) = length pkgs"
    and "\<forall>k<length pkgs. packages s ! k = annotated pkgs done k"
  shows "\<exists>s1. init_loop n i (map WellTyped rest) s = (None, s1) \<and>
         length (packages s1) = length pkgs \<and>
         (\<forall>k<length pkgs. packages s1 ! k = annotated pkgs (done @ rest) k)"
  using assms
proof (induction rest arbitrary: s i "done")
  case Nil
  then show ?case by simp
next
  case (Cons e rest)
  from init_entry_annotated [OF Cons.prems, of n i e]
  obtain s2 where s2: "init_entry n i (WellTyped e) s = Inr s2"
    and step: "length (packages s2) = length pkgs"
      "\<forall>k<length pkgs. packages s2 ! k = annotated pkgs (done @ [e]) k"
    by blast
  from Cons.IH [OF step, of "Suc i"] s2
  show ?case by simp
qed


lemma annotated_Nil: "annotated pkgs [] k = toGUIPackage (pkgs ! k)"
  by (simp add: annotated_def)

text \<open>
  When the check of the CLI package does not throw, the \<^verbatim>\<open>try\<close> block is the loop, on the
  array as it was, followed by the log of what the loop throws.
\<close>

lemma init_try_loop:
  assumes "find (\<lambda>p. Package.full_name p = ''tea.xyz'') pkgs = None \<or>
           (\<forall>x. find (\<lambda>e. entry_full_name e = ''tea.xyz'') received \<noteq>
                  Some (WithoutVersions x))"
  shows "\<exists>s3 es. init_try pkgs (Inr received) s =
           (case init_loop (length received) 0 received s3 of
              (Some error, s4) \<Rightarrow> perform (LogError error) s4
            | (None, s4) \<Rightarrow> s4) \<and>
        packages s3 = packages s \<and> effects s3 = effects s @ es"
proof (cases "find (\<lambda>p. Package.full_name p = ''tea.xyz'') pkgs")
  case None
  show ?thesis
    unfolding init_try_def Let_def sum.case None option.case
    by (rule exI, rule exI, rule conjI, rule refl) simp
next
  case (Some teaPkg)
  with assms have typed: "\<forall>x. find (\<lambda>e. entry_full_name e = ''tea.xyz'') received \<noteq>
                  Some (WithoutVersions x)"
    by simp
  let ?s1 = "perform (LogInfo ''sync test for tea-cli'') (perform GetInstalledPackages s)"
  have "\<exists>s2 es. checkTeaCLIPackage teaPkg
          (find (\<lambda>e. entry_full_name e = ''tea.xyz'') received) ?s1 = Inr s2 \<and>
          packages s2 = packages s \<and> effects s2 = effects s @ es"
  proof (cases "find (\<lambda>e. entry_full_name e = ''tea.xyz'') received")
    case None
    then show ?thesis
      by (simp add: checkTeaCLIPackage_def)
  next
    case (Some ip)
    with typed obtain p where "ip = WellTyped p"
      by (cases ip) auto
    with Some show ?thesis
      by (simp add: checkTeaCLIPackage_def)
  qed
  then obtain s2 es where s2: "checkTeaCLIPackage teaPkg
          (find (\<lambda>e. entry_full_name e = ''tea.xyz'') received) ?s1 = Inr s2"
    and p2: "packages s2 = packages s" "effects s2 = effects s @ es"
    by blast
  have "init_try pkgs (Inr received) s =
           (case init_loop (length received) 0 received
                   (perform (LogInfo ''set NEEDS_UPDATE state to pkgs'') s2) of
              (Some error, s4) \<Rightarrow> perform (LogError error) s4
            | (None, s4) \<Rightarrow> s4)"
    by (simp add: init_try_def Let_def Some s2)
  moreover have "packages (perform (LogInfo ''set NEEDS_UPDATE state to pkgs'') s2) = packages s"
    "effects (perform (LogInfo ''set NEEDS_UPDATE state to pkgs'') s2) =
       effects s @ (es @ [LogInfo ''set NEEDS_UPDATE state to pkgs''])"
    by (simp_all add: p2)
  ultimately show ?thesis
    by blast
qed

lemma find_WellTyped:
  "find (\<lambda>e. entry_full_name e = x) (map WellTyped installedPkgs) \<noteq> Some (WithoutVersions y)"
  by (induction installedPkgs) simp_all

lemma init_runs_init_try:
  assumes "\<not> initialized s"
  shows "\<exists>s2 es. snd (init (Inr pkgs) fetched s) =
           perform (LogInfo ''packages store: initialized!'') (init_try pkgs fetched s2) \<and>
        packages s2 = map toGUIPackage pkgs \<and> effects s2 = effects s @ es"
proof -
  have "init_begin s =
        (True, perform GetDistPackages
                 ((perform (LogInfo ''packages store: initializing...'')
                     (perform (LogInfo ''packages store: try initialize'') s))
                    \<lparr>initialized := True\<rparr>))"
    using assms by (simp add: init_begin_def Let_def)
  then show ?thesis
    unfolding init_def init_continue_def Let_def sum.case prod.case bool.case snd_conv
    by (simp only: prod.case bool.case if_True sum.case snd_conv)
       (rule exI, rule exI, rule conjI, rule refl, simp)
qed

lemma init_packages_annotated:
  assumes "\<not> initialized s"
  shows "length (packages (snd (init (Inr pkgs) (Inr (map WellTyped installedPkgs)) s))) =
           length pkgs \<and>
         (\<forall>k<length pkgs.
            packages (snd (init (Inr pkgs) (Inr (map WellTyped installedPkgs)) s)) ! k =
              annotated pkgs installedPkgs k)"
proof -
  let ?received = "map WellTyped installedPkgs"
  from init_runs_init_try [OF assms, of pkgs "Inr ?received"]
  obtain s2 where s2: "snd (init (Inr pkgs) (Inr ?received) s) =
           perform (LogInfo ''packages store: initialized!'')
             (init_try pkgs (Inr ?received) s2)"
    and p2: "packages s2 = map toGUIPackage pkgs"
    by blast
  have "find (\<lambda>p. Package.full_name p = ''tea.xyz'') pkgs = None \<or>
           (\<forall>x. find (\<lambda>e. entry_full_name e = ''tea.xyz'') ?received \<noteq>
                  Some (WithoutVersions x))"
    by (simp add: find_WellTyped)
  from init_try_loop [OF this, of s2]
  obtain s3 where s3: "init_try pkgs (Inr ?received) s2 =
           (case init_loop (length ?received) 0 ?received s3 of
              (Some error, s4) \<Rightarrow> perform (LogError error) s4
            | (None, s4) \<Rightarrow> s4)"
    and p3: "packages s3 = packages s2"
    by blast
  have "length (packages s3) = length pkgs"
    and "\<forall>k<length pkgs. packages s3 ! k = annotated pkgs [] k"
    by (simp_all add: p3 p2 annotated_Nil)
  from init_loop_annotated [OF this, of "length ?received" 0 installedPkgs]
  show ?thesis
    by (auto simp: s2 s3)
qed

lemma find_rev_last:
  "m < length xs \<Longrightarrow> P (xs ! m) \<Longrightarrow> (\<forall>m'<length xs. m < m' \<longrightarrow> \<not> P (xs ! m')) \<Longrightarrow>
   find P (rev xs) = Some (xs ! m)"
proof (induction xs rule: rev_induct)
  case Nil
  then show ?case by simp
next
  case (snoc x xs)
  show ?case
  proof (cases "m = length xs")
    case True
    with snoc.prems(2) show ?thesis by simp
  next
    case False
    with snoc.prems(1) have m: "m < length xs" by simp
    then have "\<not> P x"
      using snoc.prems(3) by (auto dest: spec [of _ "length xs"])
    moreover have "P (xs ! m)"
      using snoc.prems(2) m by (simp add: nth_append)
    moreover have "\<forall>m'<length xs. m < m' \<longrightarrow> \<not> P (xs ! m')"
    proof (intro allI impI)
      fix m' assume "m' < length xs" "m < m'"
      then show "\<not> P (xs ! m')"
        using snoc.prems(3) by (auto simp: nth_append dest!: spec [of _ m'])
    qed
    ultimately show ?thesis
      using snoc.IH m by (simp add: nth_append)
  qed
qed

text \<open>
  Claim C1, amended. After \<^verbatim>\<open>init\<close> has run on a store that was not initialized, with a
  catalog and a list of installed packages of the declared type, the store has one record for each catalog entry.
  The record of the first catalog entry with a given \<open>full_name\<close> that the installed list
  contains is the catalog entry with the installed versions of the last installed entry of
  that \<open>full_name\<close>, in state \<open>INSTALLED\<close> when the catalog version is the first of these
  versions and in state \<open>NEEDS_UPDATE\<close> otherwise. The record of every other catalog entry
  (its \<open>full_name\<close> is not in the installed list, or an earlier catalog entry has the same
  \<open>full_name\<close>) is the catalog entry in state \<open>AVAILABLE\<close>.
\<close>

theorem init_annotates_catalog:
  assumes "\<not> initialized s"
  shows "fst (init (Inr pkgs) (Inr (map WellTyped installedPkgs)) s) = Inr () \<and>
    length (packages (snd (init (Inr pkgs) (Inr (map WellTyped installedPkgs)) s))) = length pkgs \<and>
    (\<forall>k<length pkgs.
       ((\<forall>j<k. Package.full_name (pkgs ! j) \<noteq> Package.full_name (pkgs ! k)) \<longrightarrow>
          (\<forall>m<length installedPkgs.
             InstalledPackage.full_name (installedPkgs ! m) = Package.full_name (pkgs ! k) \<and>
             (\<forall>m'<length installedPkgs. m < m' \<longrightarrow>
                InstalledPackage.full_name (installedPkgs ! m') \<noteq> Package.full_name (pkgs ! k)) \<longrightarrow>
             packages (snd (init (Inr pkgs) (Inr (map WellTyped installedPkgs)) s)) ! k =
               (toGUIPackage (pkgs ! k))
                 \<lparr>GUIPackage.installed_versions :=
                    Some (InstalledPackage.installed_versions (installedPkgs ! m)),
                  state :=
                    (if Some (version (pkgs ! k)) =
                          first_element (InstalledPackage.installed_versions (installedPkgs ! m))
                     then INSTALLED else NEEDS_UPDATE)\<rparr>)) \<and>
       ((\<exists>j<k. Package.full_name (pkgs ! j) = Package.full_name (pkgs ! k)) \<or>
        (\<forall>e\<in>set installedPkgs. InstalledPackage.full_name e \<noteq> Package.full_name (pkgs ! k)) \<longrightarrow>
          packages (snd (init (Inr pkgs) (Inr (map WellTyped installedPkgs)) s)) ! k = toGUIPackage (pkgs ! k) \<and>
          state (packages (snd (init (Inr pkgs) (Inr (map WellTyped installedPkgs)) s)) ! k) = AVAILABLE))"
proof -
  let ?s' = "snd (init (Inr pkgs) (Inr (map WellTyped installedPkgs)) s)"
  note ann = init_packages_annotated [OF assms, of pkgs installedPkgs]
  have matched: "packages ?s' ! k =
               (toGUIPackage (pkgs ! k))
                 \<lparr>GUIPackage.installed_versions :=
                    Some (InstalledPackage.installed_versions (installedPkgs ! m)),
                  state :=
                    (if Some (version (pkgs ! k)) =
                          first_element (InstalledPackage.installed_versions (installedPkgs ! m))
                     then INSTALLED else NEEDS_UPDATE)\<rparr>"
    if k: "k < length pkgs"
      and first: "\<forall>j<k. Package.full_name (pkgs ! j) \<noteq> Package.full_name (pkgs ! k)"
      and m: "m < length installedPkgs"
      and name: "InstalledPackage.full_name (installedPkgs ! m) = Package.full_name (pkgs ! k)"
      and last: "\<forall>m'<length installedPkgs. m < m' \<longrightarrow>
                InstalledPackage.full_name (installedPkgs ! m') \<noteq> Package.full_name (pkgs ! k)"
    for k m
  proof -
    have "findIndex (\<lambda>p. Package.full_name p = Package.full_name (pkgs ! k)) pkgs = Some k"
      using k first by (simp add: findIndex_Some_iff)
    moreover have "find (\<lambda>e. InstalledPackage.full_name e = Package.full_name (pkgs ! k))
                     (rev installedPkgs) = Some (installedPkgs ! m)"
      using m name last by (intro find_rev_last) simp_all
    ultimately have "annotated pkgs installedPkgs k =
               (toGUIPackage (pkgs ! k))
                 \<lparr>GUIPackage.installed_versions :=
                    Some (InstalledPackage.installed_versions (installedPkgs ! m)),
                  state :=
                    (if Some (version (pkgs ! k)) =
                          first_element (InstalledPackage.installed_versions (installedPkgs ! m))
                     then INSTALLED else NEEDS_UPDATE)\<rparr>"
      by (simp add: annotated_def)
    with ann k show ?thesis by simp
  qed
  have unmatched: "packages ?s' ! k = toGUIPackage (pkgs ! k) \<and> state (packages ?s' ! k) = AVAILABLE"
    if k: "k < length pkgs"
      and no: "(\<exists>j<k. Package.full_name (pkgs ! j) = Package.full_name (pkgs ! k)) \<or>
        (\<forall>e\<in>set installedPkgs. InstalledPackage.full_name e \<noteq> Package.full_name (pkgs ! k))"
    for k
  proof -
    from no have "annotated pkgs installedPkgs k = toGUIPackage (pkgs ! k)"
    proof
      assume "\<exists>j<k. Package.full_name (pkgs ! j) = Package.full_name (pkgs ! k)"
      then have "findIndex (\<lambda>p. Package.full_name p = Package.full_name (pkgs ! k)) pkgs \<noteq> Some k"
        by (auto simp: findIndex_Some_iff)
      then show ?thesis
        by (simp add: annotated_def)
    next
      assume "\<forall>e\<in>set installedPkgs. InstalledPackage.full_name e \<noteq> Package.full_name (pkgs ! k)"
      then have "find (\<lambda>e. InstalledPackage.full_name e = Package.full_name (pkgs ! k))
                     (rev installedPkgs) = None"
        by (simp add: find_None_iff)
      then show ?thesis
        by (simp add: annotated_def)
    qed
    with ann k show ?thesis
      by (simp add: toGUIPackage_state)
  qed
  have "fst (init (Inr pkgs) (Inr (map WellTyped installedPkgs)) s) = Inr ()"
    by (rule init_never_throws_after_catalog)
  moreover have "length (packages ?s') = length pkgs"
    using ann by simp
  ultimately show ?thesis
    using matched unmatched by blast
qed

theorem init_annotates_catalog_witness:
  "packages (snd (init (Inr example_catalog) (Inr (map WellTyped example_installed)) initPackagesStore)) ! 0 =
     (example_gui ''a.org'' ''1.0.0'' INSTALLED)
       \<lparr>GUIPackage.installed_versions := Some [''1.0.0'', ''0.9.0'']\<rparr> \<and>
   packages (snd (init (Inr example_catalog) (Inr (map WellTyped example_installed)) initPackagesStore)) ! 1 =
     (example_gui ''b.org'' ''2.0.0'' NEEDS_UPDATE)
       \<lparr>GUIPackage.installed_versions := Some [''1.9.0'']\<rparr> \<and>
   packages (snd (init (Inr example_catalog) (Inr (map WellTyped example_installed)) initPackagesStore)) ! 2 =
     example_gui ''a.org'' ''1.0.0'' AVAILABLE \<and>
   packages (snd (init (Inr example_catalog) (Inr (map WellTyped example_installed)) initPackagesStore)) ! 3 =
     example_gui ''c.org'' ''3.0.0'' AVAILABLE"
proof -
  let ?s' = "snd (init (Inr example_catalog) (Inr (map WellTyped example_installed)) initPackagesStore)"
  have fresh: "\<not> initialized initPackagesStore"
    by (simp add: initPackagesStore_def)
  note inst = init_annotates_catalog [OF fresh, of example_catalog example_installed]
  have lens: "length example_catalog = 4" "length example_installed = 3"
    by (simp_all add: example_catalog_def example_installed_def)
  have upto: "(\<forall>m'<3. P m') \<longleftrightarrow> P 0 \<and> P 1 \<and> P (2::nat)" for P
    by (auto simp: numeral_3_eq_3 less_Suc_eq numeral_2_eq_2)
  have h0: "(\<forall>j<0. Package.full_name (example_catalog ! j) \<noteq> Package.full_name (example_catalog ! 0))"
    and m0: "(1::nat) < length example_installed \<and>
         InstalledPackage.full_name (example_installed ! 1) = Package.full_name (example_catalog ! 0) \<and>
         (\<forall>m'<length example_installed. 1 < m' \<longrightarrow>
            InstalledPackage.full_name (example_installed ! m') \<noteq> Package.full_name (example_catalog ! 0))"
    by (simp_all add: lens upto) (simp_all add: example_catalog_def example_installed_def example_package_def)
  have h1: "(\<forall>j<1. Package.full_name (example_catalog ! j) \<noteq> Package.full_name (example_catalog ! 1))"
    and m1: "(2::nat) < length example_installed \<and>
         InstalledPackage.full_name (example_installed ! 2) = Package.full_name (example_catalog ! 1) \<and>
         (\<forall>m'<length example_installed. 2 < m' \<longrightarrow>
            InstalledPackage.full_name (example_installed ! m') \<noteq> Package.full_name (example_catalog ! 1))"
    by (simp_all add: lens upto) (simp_all add: example_catalog_def example_installed_def example_package_def)
  have h2: "\<exists>j<2. Package.full_name (example_catalog ! j) = Package.full_name (example_catalog ! 2)"
    by (rule exI [of _ 0]) (simp add: example_catalog_def example_package_def)
  have h3: "\<forall>e\<in>set example_installed. InstalledPackage.full_name e \<noteq> Package.full_name (example_catalog ! 3)"
    by (simp add: example_catalog_def example_installed_def example_package_def)
  have k: "(0::nat) < length example_catalog" "(1::nat) < length example_catalog"
    "(2::nat) < length example_catalog" "(3::nat) < length example_catalog"
    by (simp_all add: lens)
  from inst k(1) h0 m0 have p0: "packages ?s' ! 0 =
      (toGUIPackage (example_catalog ! 0))
        \<lparr>GUIPackage.installed_versions :=
           Some (InstalledPackage.installed_versions (example_installed ! 1)),
         state := (if Some (version (example_catalog ! 0)) =
                        first_element (InstalledPackage.installed_versions (example_installed ! 1))
                   then INSTALLED else NEEDS_UPDATE)\<rparr>"
    by blast
  from inst k(2) h1 m1 have p1: "packages ?s' ! 1 =
      (toGUIPackage (example_catalog ! 1))
        \<lparr>GUIPackage.installed_versions :=
           Some (InstalledPackage.installed_versions (example_installed ! 2)),
         state := (if Some (version (example_catalog ! 1)) =
                        first_element (InstalledPackage.installed_versions (example_installed ! 2))
                   then INSTALLED else NEEDS_UPDATE)\<rparr>"
    by blast
  from inst k(3) h2 have p2: "packages ?s' ! 2 = toGUIPackage (example_catalog ! 2)"
    by blast
  from inst k(4) h3 have p3: "packages ?s' ! 3 = toGUIPackage (example_catalog ! 3)"
    by blast
  show ?thesis
    unfolding p0 p1 p2 p3
    by (simp add: example_catalog_def example_installed_def example_package_def example_gui_def
          toGUIPackage_def first_element_def)
qed

lemma example_annotated_2:
  "annotated example_catalog example_installed 2 = toGUIPackage (example_catalog ! 2)"
  by (simp add: annotated_def example_catalog_def example_package_def)

text \<open>
  Claim C1 as first stated fails where a \<open>full_name\<close> is repeated: the third entry of the
  example catalog has the \<open>full_name\<close> and the version of an installed entry, and is left in
  state \<open>AVAILABLE\<close> without installed versions.
\<close>

theorem init_duplicate_full_name_counterexample:
  "Package.full_name (example_catalog ! 2) = InstalledPackage.full_name (example_installed ! 1) \<and>
   Some (version (example_catalog ! 2)) =
     first_element (InstalledPackage.installed_versions (example_installed ! 1)) \<and>
   state (packages (snd (init (Inr example_catalog) (Inr (map WellTyped example_installed)) initPackagesStore)) ! 2)
     = AVAILABLE \<and>
   GUIPackage.installed_versions
     (packages (snd (init (Inr example_catalog) (Inr (map WellTyped example_installed)) initPackagesStore)) ! 2)
     = None"
proof -
  have "\<not> initialized initPackagesStore"
    by (simp add: initPackagesStore_def)
  from init_packages_annotated [OF this, of example_catalog example_installed]
  have "packages (snd (init (Inr example_catalog) (Inr (map WellTyped example_installed)) initPackagesStore)) ! 2 =
        annotated example_catalog example_installed 2"
    by (simp add: example_catalog_def)
  then show ?thesis
    by (simp add: example_annotated_2)
       (simp add: example_catalog_def example_installed_def example_package_def
          toGUIPackage_def first_element_def)
qed

subsection \<open>init: what the catch block leaves\<close>






subsection \<open>installPkg\<close>

lemma findIndex_names:
  assumes "map Package.full_name G = map Package.full_name H"
  shows "findIndex (\<lambda>p. Package.full_name p = x) G = findIndex (\<lambda>p. Package.full_name p = x) H"
proof -
  have "findIndex (\<lambda>n. n = x) (map Package.full_name G) =
        findIndex (\<lambda>n. n = x) (map Package.full_name H)"
    using assms by simp
  then show ?thesis
    by (simp add: findIndex_map)
qed

lemma updatePackage_state_packages:
  "packages (updatePackage fn [Prop_state st] s) =
     (case findIndex (\<lambda>p. Package.full_name p = fn) (packages s) of
        Some i \<Rightarrow> (packages s)[i := (packages s ! i)\<lparr>state := st\<rparr>]
      | None \<Rightarrow> packages s)"
  by (simp add: updatePackage_def spread_def split: option.splits)

lemma updatePackage_progress_packages:
  "packages (updatePackage fn [Prop_install_progress_percentage v] s) =
     (case findIndex (\<lambda>p. Package.full_name p = fn) (packages s) of
        Some i \<Rightarrow> (packages s)[i := (packages s ! i)\<lparr>install_progress_percentage := v\<rparr>]
      | None \<Rightarrow> packages s)"
  by (simp add: updatePackage_def spread_def split: option.splits)

lemma updatePackage_state_names:
  "map Package.full_name (packages (updatePackage fn [Prop_state st] s)) =
   map Package.full_name (packages s)"
  by (simp add: updatePackage_state_packages map_update list_update_same_conv
        findIndex_Some_iff split: option.splits)

lemma updatePackage_progress_names:
  "map Package.full_name (packages (updatePackage fn [Prop_install_progress_percentage v] s)) =
   map Package.full_name (packages s)"
  by (simp add: updatePackage_progress_packages map_update list_update_same_conv
        findIndex_Some_iff split: option.splits)

lemma updatePackage_progress_states:
  "map state (packages (updatePackage fn [Prop_install_progress_percentage v] s)) =
   map state (packages s)"
  by (simp add: updatePackage_progress_packages map_update list_update_same_conv
        findIndex_Some_iff split: option.splits)

lemma fakeTimer_ticks_keeps:
  "map Package.full_name (packages (fakeTimer_ticks pkg n s)) = map Package.full_name (packages s) \<and>
   map state (packages (fakeTimer_ticks pkg n s)) = map state (packages s) \<and>
   effects (fakeTimer_ticks pkg n s) = effects s"
  by (induction n) (simp_all add: updatePackage_progress_names updatePackage_progress_states)

lemma installPkg_begin_effects:
  "effects (installPkg_begin pkg version_arg s) =
     effects s @ [InstallPackage pkg
       (case version_arg of None \<Rightarrow> version pkg | Some v \<Rightarrow> if v = [] then version pkg else v)]"
  by (simp add: installPkg_begin_def Let_def)

lemma installPkg_begin_packages:
  "packages (installPkg_begin pkg version_arg s) =
   packages (updatePackage (Package.full_name pkg)
      [Prop_state (if state pkg = NEEDS_UPDATE then UPDATING else INSTALLING)] s)"
  by (simp add: installPkg_begin_def Let_def)

text \<open>The store while the native call is awaited, after n ticks.\<close>

lemma installPkg_pending:
  fixes pkg :: GUIPackage and n :: nat and version_arg :: "string option" and s :: store
  defines "s2 \<equiv> fakeTimer_ticks pkg n (installPkg_begin pkg version_arg s)"
  assumes "findIndex (\<lambda>p. Package.full_name p = Package.full_name pkg) (packages s) = Some i"
  shows "findIndex (\<lambda>p. Package.full_name p = Package.full_name pkg) (packages s2) = Some i"
    and "state (packages s2 ! i) = (if state pkg = NEEDS_UPDATE then UPDATING else INSTALLING)"
    and "effects s2 = effects s @ [InstallPackage pkg
       (case version_arg of None \<Rightarrow> version pkg | Some v \<Rightarrow> if v = [] then version pkg else v)]"
proof -
  let ?st = "if state pkg = NEEDS_UPDATE then UPDATING else INSTALLING"
  let ?s1 = "installPkg_begin pkg version_arg s"
  have i: "i < length (packages s)"
    using assms(2) by (simp add: findIndex_Some_iff)
  have p1: "packages ?s1 = (packages s)[i := (packages s ! i)\<lparr>state := ?st\<rparr>]"
    using assms(2) by (simp add: installPkg_begin_packages updatePackage_state_packages)
  have n1: "map Package.full_name (packages ?s1) = map Package.full_name (packages s)"
    by (simp add: installPkg_begin_packages updatePackage_state_names)
  have keep: "map Package.full_name (packages s2) = map Package.full_name (packages ?s1)"
    "map state (packages s2) = map state (packages ?s1)" "effects s2 = effects ?s1"
    using fakeTimer_ticks_keeps [of pkg n ?s1] by (simp_all add: s2_def)
  show "findIndex (\<lambda>p. Package.full_name p = Package.full_name pkg) (packages s2) = Some i"
    using findIndex_names [of "packages s2" "packages s"] keep(1) n1 assms(2) by simp
  have "length (packages s2) = length (packages s)"
    using keep(1) n1 by (metis length_map)
  then have "state (packages s2 ! i) = map state (packages s2) ! i"
    using i by simp
  also have "\<dots> = state (packages ?s1 ! i)"
    using i p1 by (simp add: keep(2))
  finally show "state (packages s2 ! i) = ?st"
    using i p1 by simp
  show "effects s2 = effects s @ [InstallPackage pkg
       (case version_arg of None \<Rightarrow> version pkg | Some v \<Rightarrow> if v = [] then version pkg else v)]"
    by (simp add: keep(3) installPkg_begin_effects)
qed

lemma installPkg_returns: "fst (installPkg pkg version_arg n outcome s) = Inr ()"
  by (simp add: installPkg_def installPkg_settle_def Let_def)

lemma installPkg_success:
  assumes "findIndex (\<lambda>p. Package.full_name p = Package.full_name pkg) (packages s) = Some i"
  shows "state (packages (snd (installPkg pkg version_arg n (Inr ()) s)) ! i) = INSTALLED"
    and "install_progress_percentage (packages (snd (installPkg pkg version_arg n (Inr ()) s)) ! i)
           = Some (Num 100)"
    and "effects (snd (installPkg pkg version_arg n (Inr ()) s)) =
           effects s @
           [InstallPackage pkg
              (case version_arg of None \<Rightarrow> version pkg
               | Some v \<Rightarrow> if v = [] then version pkg else v),
            TrackInstall (Package.full_name pkg)]"
proof -
  let ?s2 = "fakeTimer_ticks pkg n (installPkg_begin pkg version_arg s)"
  let ?s3 = "updatePackage (Package.full_name pkg) [Prop_state INSTALLED]
               (perform (TrackInstall (Package.full_name pkg)) ?s2)"
  note pending = installPkg_pending [OF assms, of n version_arg]
  have i: "i < length (packages ?s2)"
    using pending(1) by (simp add: findIndex_Some_iff)
  have result: "snd (installPkg pkg version_arg n (Inr ()) s) =
        updatePackage (Package.full_name pkg) [Prop_install_progress_percentage (Some (Num 100))] ?s3"
    by (simp add: installPkg_def installPkg_settle_def Let_def)
  have p3: "packages ?s3 = (packages ?s2)[i := (packages ?s2 ! i)\<lparr>state := INSTALLED\<rparr>]"
    using pending(1) by (simp add: updatePackage_state_packages perform_def)
  have "map Package.full_name (packages ?s3) = map Package.full_name (packages ?s2)"
    using updatePackage_state_names [of "Package.full_name pkg" INSTALLED
            "perform (TrackInstall (Package.full_name pkg)) ?s2"]
    by (simp add: perform_def)
  then have f3: "findIndex (\<lambda>p. Package.full_name p = Package.full_name pkg) (packages ?s3) = Some i"
    using findIndex_names [of "packages ?s3" "packages ?s2"] pending(1) by simp
  have final: "packages (snd (installPkg pkg version_arg n (Inr ()) s)) =
        (packages ?s3)[i := (packages ?s3 ! i)\<lparr>install_progress_percentage := Some (Num 100)\<rparr>]"
    using f3 by (simp add: result updatePackage_progress_packages)
  show "state (packages (snd (installPkg pkg version_arg n (Inr ()) s)) ! i) = INSTALLED"
    using i by (simp add: final p3)
  show "install_progress_percentage (packages (snd (installPkg pkg version_arg n (Inr ()) s)) ! i)
           = Some (Num 100)"
    using i by (simp add: final p3)
  show "effects (snd (installPkg pkg version_arg n (Inr ()) s)) =
           effects s @
           [InstallPackage pkg
              (case version_arg of None \<Rightarrow> version pkg
               | Some v \<Rightarrow> if v = [] then version pkg else v),
            TrackInstall (Package.full_name pkg)]"
    by (simp add: result updatePackage_def perform_def pending(3))
qed

lemma installPkg_failure:
  assumes "findIndex (\<lambda>p. Package.full_name p = Package.full_name pkg) (packages s) = Some i"
  shows "state (packages (snd (installPkg pkg version_arg n (Inl error) s)) ! i) =
           (if state pkg = NEEDS_UPDATE then UPDATING else INSTALLING)"
    and "install_progress_percentage (packages (snd (installPkg pkg version_arg n (Inl error) s)) ! i)
           = Some (Num 100)"
    and "effects (snd (installPkg pkg version_arg n (Inl error) s)) =
           effects s @
           [InstallPackage pkg
              (case version_arg of None \<Rightarrow> version pkg
               | Some v \<Rightarrow> if v = [] then version pkg else v),
            TrackInstallFailed (Package.full_name pkg)
              (case error of
                 Error m \<Rightarrow> if m = [] then ''unknown'' else m
               | NonError x \<Rightarrow> ''Unknown Error'')]"
proof -
  let ?s2 = "fakeTimer_ticks pkg n (installPkg_begin pkg version_arg s)"
  let ?msg = "case error of Error m \<Rightarrow> if m = [] then ''unknown'' else m
               | NonError x \<Rightarrow> ''Unknown Error''"
  let ?s3 = "perform (TrackInstallFailed (Package.full_name pkg) ?msg) ?s2"
  note pending = installPkg_pending [OF assms, of n version_arg]
  have i: "i < length (packages ?s2)"
    using pending(1) by (simp add: findIndex_Some_iff)
  have result: "snd (installPkg pkg version_arg n (Inl error) s) =
        updatePackage (Package.full_name pkg) [Prop_install_progress_percentage (Some (Num 100))] ?s3"
    by (cases error) (simp_all add: installPkg_def installPkg_settle_def Let_def)
  have final: "packages (snd (installPkg pkg version_arg n (Inl error) s)) =
        (packages ?s2)[i := (packages ?s2 ! i)\<lparr>install_progress_percentage := Some (Num 100)\<rparr>]"
    using pending(1) by (simp add: result updatePackage_progress_packages perform_def)
  show "state (packages (snd (installPkg pkg version_arg n (Inl error) s)) ! i) =
           (if state pkg = NEEDS_UPDATE then UPDATING else INSTALLING)"
    using i pending(2) by (simp add: final)
  show "install_progress_percentage (packages (snd (installPkg pkg version_arg n (Inl error) s)) ! i)
           = Some (Num 100)"
    using i by (simp add: final)
  show "effects (snd (installPkg pkg version_arg n (Inl error) s)) =
           effects s @
           [InstallPackage pkg
              (case version_arg of None \<Rightarrow> version pkg
               | Some v \<Rightarrow> if v = [] then version pkg else v),
            TrackInstallFailed (Package.full_name pkg) ?msg]"
    by (simp add: result updatePackage_def perform_def pending(3))
qed

text \<open>
  Claim C5, amended. Let the first record of the store with the \<open>full_name\<close> of \<open>pkg\<close> be
  at index \<open>i\<close>. Up to its \<^verbatim>\<open>await\<close>, \<^verbatim>\<open>installPkg\<close> sets the state of that record to
  \<open>UPDATING\<close> when the state of \<open>pkg\<close> is \<open>NEEDS_UPDATE\<close> and to \<open>INSTALLING\<close> otherwise,
  and makes the native call with the given version when that is a non-empty string and with
  the version of \<open>pkg\<close> when no version or the empty string is given. The state stays so
  while the timer ticks. When the native call succeeds \<^verbatim>\<open>installPkg\<close> returns normally,
  the install is tracked and the state of the record is \<open>INSTALLED\<close>.
\<close>

theorem installPkg_sets_state_and_installs:
  assumes "i < length (packages s)"
    and "Package.full_name (packages s ! i) = Package.full_name pkg"
    and "\<forall>j<i. Package.full_name (packages s ! j) \<noteq> Package.full_name pkg"
  shows "installPkg pkg version_arg n outcome s =
           installPkg_settle pkg outcome
             (fakeTimer_ticks pkg n (installPkg_begin pkg version_arg s)) \<and>
         state (packages (installPkg_begin pkg version_arg s) ! i) =
           (if state pkg = NEEDS_UPDATE then UPDATING else INSTALLING) \<and>
         (\<forall>v. version_arg = Some v \<and> v \<noteq> [] \<longrightarrow>
            effects (installPkg_begin pkg version_arg s) = effects s @ [InstallPackage pkg v]) \<and>
         (version_arg = None \<or> version_arg = Some [] \<longrightarrow>
            effects (installPkg_begin pkg version_arg s) =
              effects s @ [InstallPackage pkg (version pkg)]) \<and>
         state (packages (fakeTimer_ticks pkg n (installPkg_begin pkg version_arg s)) ! i) =
           (if state pkg = NEEDS_UPDATE then UPDATING else INSTALLING) \<and>
         fst (installPkg pkg version_arg n (Inr ()) s) = Inr () \<and>
         state (packages (snd (installPkg pkg version_arg n (Inr ()) s)) ! i) = INSTALLED \<and>
         effects (snd (installPkg pkg version_arg n (Inr ()) s)) =
           effects (installPkg_begin pkg version_arg s) @ [TrackInstall (Package.full_name pkg)]"
proof -
  have first: "findIndex (\<lambda>p. Package.full_name p = Package.full_name pkg) (packages s) = Some i"
    using assms by (simp add: findIndex_Some_iff)
  have a: "installPkg pkg version_arg n outcome s =
           installPkg_settle pkg outcome
             (fakeTimer_ticks pkg n (installPkg_begin pkg version_arg s))"
    by (simp add: installPkg_def)
  have b: "state (packages (installPkg_begin pkg version_arg s) ! i) =
           (if state pkg = NEEDS_UPDATE then UPDATING else INSTALLING)"
    using installPkg_pending(2) [OF first, of 0 version_arg] by simp
  have c: "\<forall>v. version_arg = Some v \<and> v \<noteq> [] \<longrightarrow>
            effects (installPkg_begin pkg version_arg s) = effects s @ [InstallPackage pkg v]"
    by (simp add: installPkg_begin_effects)
  have d: "version_arg = None \<or> version_arg = Some [] \<longrightarrow>
            effects (installPkg_begin pkg version_arg s) =
              effects s @ [InstallPackage pkg (version pkg)]"
    by (auto simp: installPkg_begin_effects)
  have e: "state (packages (fakeTimer_ticks pkg n (installPkg_begin pkg version_arg s)) ! i) =
           (if state pkg = NEEDS_UPDATE then UPDATING else INSTALLING)"
    by (rule installPkg_pending(2) [OF first])
  have f: "fst (installPkg pkg version_arg n (Inr ()) s) = Inr ()"
    by (rule installPkg_returns)
  have g: "state (packages (snd (installPkg pkg version_arg n (Inr ()) s)) ! i) = INSTALLED"
    by (rule installPkg_success(1) [OF first])
  have h: "effects (snd (installPkg pkg version_arg n (Inr ()) s)) =
           effects (installPkg_begin pkg version_arg s) @ [TrackInstall (Package.full_name pkg)]"
    by (simp add: installPkg_success(3) [OF first] installPkg_begin_effects)
  from a b c d e f g h show ?thesis
    by blast
qed

theorem installPkg_sets_state_and_installs_witness:
  "state (packages (installPkg_begin (example_gui ''b.org'' ''2.0.0'' NEEDS_UPDATE)
            (Some ''2.1.0'') example_store) ! 1) = UPDATING \<and>
   effects (installPkg_begin (example_gui ''b.org'' ''2.0.0'' NEEDS_UPDATE)
            (Some ''2.1.0'') example_store) =
     [InstallPackage (example_gui ''b.org'' ''2.0.0'' NEEDS_UPDATE) ''2.1.0''] \<and>
   state (packages (snd (installPkg (example_gui ''b.org'' ''2.0.0'' NEEDS_UPDATE)
            (Some ''2.1.0'') 3 (Inr ()) example_store)) ! 1) = INSTALLED \<and>
   effects (snd (installPkg (example_gui ''b.org'' ''2.0.0'' NEEDS_UPDATE)
            (Some ''2.1.0'') 3 (Inr ()) example_store)) =
     [InstallPackage (example_gui ''b.org'' ''2.0.0'' NEEDS_UPDATE) ''2.1.0'',
      TrackInstall ''b.org'']"
proof -
  let ?pkg = "example_gui ''b.org'' ''2.0.0'' NEEDS_UPDATE"
  have h1: "(1::nat) < length (packages example_store)"
    and h2: "Package.full_name (packages example_store ! 1) = Package.full_name ?pkg"
    and h3: "\<forall>j<1. Package.full_name (packages example_store ! j) \<noteq> Package.full_name ?pkg"
    by (simp_all add: example_store_def example_gui_def)
  have e: "effects example_store = []" and st: "state ?pkg = NEEDS_UPDATE"
    and fn: "Package.full_name ?pkg = ''b.org''"
    by (simp_all add: example_store_def initPackagesStore_def example_gui_def)
  from installPkg_sets_state_and_installs [OF h1 h2 h3, of "Some ''2.1.0''" 3 "Inr ()", THEN conjunct2]
  show ?thesis
    by (simp add: e st fn)
qed

text \<open>
  Claim C5 as first stated fails for the empty string: it is a given version, and the native
  call is made with the version of the package.
\<close>

theorem installPkg_empty_version_counterexample:
  "effects (installPkg_begin (example_gui ''b.org'' ''2.0.0'' NEEDS_UPDATE) (Some [])
      example_store) =
     [InstallPackage (example_gui ''b.org'' ''2.0.0'' NEEDS_UPDATE) ''2.0.0''] \<and>
   effects (installPkg_begin (example_gui ''b.org'' ''2.0.0'' NEEDS_UPDATE) (Some [])
      example_store) \<noteq>
     [InstallPackage (example_gui ''b.org'' ''2.0.0'' NEEDS_UPDATE) []]"
  by (simp add: installPkg_begin_effects)
     (simp add: example_store_def initPackagesStore_def example_gui_def)

text \<open>
  Claim C8, amended. Let the first record of the store with the \<open>full_name\<close> of \<open>pkg\<close> be
  at index \<open>i\<close>. \<^verbatim>\<open>installPkg\<close> returns normally whatever the native call does, and its
  record has the progress 100 afterwards. When the native call throws, the state of the
  record stays \<open>UPDATING\<close> or \<open>INSTALLING\<close> as it was set, and the failure is tracked with the
  message of the error when the thrown value is an error with a non-empty message, with
  \<open>''unknown''\<close> when the message is empty and with \<open>''Unknown Error''\<close> when the thrown value
  is not an error.
\<close>

theorem installPkg_failure_keeps_state:
  assumes "i < length (packages s)"
    and "Package.full_name (packages s ! i) = Package.full_name pkg"
    and "\<forall>j<i. Package.full_name (packages s ! j) \<noteq> Package.full_name pkg"
  shows "fst (installPkg pkg version_arg n outcome s) = Inr () \<and>
         install_progress_percentage (packages (snd (installPkg pkg version_arg n outcome s)) ! i)
           = Some (Num 100) \<and>
         state (packages (snd (installPkg pkg version_arg n (Inl error) s)) ! i) =
           (if state pkg = NEEDS_UPDATE then UPDATING else INSTALLING) \<and>
         (\<forall>m. error = Error m \<and> m \<noteq> [] \<longrightarrow>
            effects (snd (installPkg pkg version_arg n (Inl error) s)) =
              effects (installPkg_begin pkg version_arg s) @
              [TrackInstallFailed (Package.full_name pkg) m]) \<and>
         (error = Error [] \<longrightarrow>
            effects (snd (installPkg pkg version_arg n (Inl error) s)) =
              effects (installPkg_begin pkg version_arg s) @
              [TrackInstallFailed (Package.full_name pkg) ''unknown'']) \<and>
         (\<forall>x. error = NonError x \<longrightarrow>
            effects (snd (installPkg pkg version_arg n (Inl error) s)) =
              effects (installPkg_begin pkg version_arg s) @
              [TrackInstallFailed (Package.full_name pkg) ''Unknown Error''])"
proof -
  have first: "findIndex (\<lambda>p. Package.full_name p = Package.full_name pkg) (packages s) = Some i"
    using assms by (simp add: findIndex_Some_iff)
  have a: "fst (installPkg pkg version_arg n outcome s) = Inr ()"
    by (rule installPkg_returns)
  have b: "install_progress_percentage
             (packages (snd (installPkg pkg version_arg n outcome s)) ! i) = Some (Num 100)"
  proof (cases outcome)
    case (Inl err)
    then show ?thesis
      by (simp add: installPkg_failure(2) [OF first])
  next
    case (Inr u)
    then show ?thesis
      by (simp add: installPkg_success(2) [OF first])
  qed
  have c: "state (packages (snd (installPkg pkg version_arg n (Inl error) s)) ! i) =
           (if state pkg = NEEDS_UPDATE then UPDATING else INSTALLING)"
    by (rule installPkg_failure(1) [OF first])
  note eff = installPkg_failure(3) [OF first, of version_arg n error]
  have d: "\<forall>m. error = Error m \<and> m \<noteq> [] \<longrightarrow>
            effects (snd (installPkg pkg version_arg n (Inl error) s)) =
              effects (installPkg_begin pkg version_arg s) @
              [TrackInstallFailed (Package.full_name pkg) m]"
    using eff by (auto simp: installPkg_begin_effects)
  have e: "error = Error [] \<longrightarrow>
            effects (snd (installPkg pkg version_arg n (Inl error) s)) =
              effects (installPkg_begin pkg version_arg s) @
              [TrackInstallFailed (Package.full_name pkg) ''unknown'']"
    using eff by (auto simp: installPkg_begin_effects)
  have f: "\<forall>x. error = NonError x \<longrightarrow>
            effects (snd (installPkg pkg version_arg n (Inl error) s)) =
              effects (installPkg_begin pkg version_arg s) @
              [TrackInstallFailed (Package.full_name pkg) ''Unknown Error'']"
    using eff by (auto simp: installPkg_begin_effects)
  from a b c d e f show ?thesis
    by blast
qed

theorem installPkg_failure_keeps_state_witness:
  "fst (installPkg (example_gui ''b.org'' ''2.0.0'' NEEDS_UPDATE) None 3
          (Inl (Error ''disk full'')) example_store) = Inr () \<and>
   state (packages (snd (installPkg (example_gui ''b.org'' ''2.0.0'' NEEDS_UPDATE) None 3
          (Inl (Error ''disk full'')) example_store)) ! 1) = UPDATING \<and>
   install_progress_percentage
     (packages (snd (installPkg (example_gui ''b.org'' ''2.0.0'' NEEDS_UPDATE) None 3
          (Inl (Error ''disk full'')) example_store)) ! 1) = Some (Num 100) \<and>
   effects (snd (installPkg (example_gui ''b.org'' ''2.0.0'' NEEDS_UPDATE) None 3
          (Inl (Error ''disk full'')) example_store)) =
     [InstallPackage (example_gui ''b.org'' ''2.0.0'' NEEDS_UPDATE) ''2.0.0'',
      TrackInstallFailed ''b.org'' ''disk full'']"
proof -
  let ?pkg = "example_gui ''b.org'' ''2.0.0'' NEEDS_UPDATE"
  have h1: "(1::nat) < length (packages example_store)"
    and h2: "Package.full_name (packages example_store ! 1) = Package.full_name ?pkg"
    and h3: "\<forall>j<1. Package.full_name (packages example_store ! j) \<noteq> Package.full_name ?pkg"
    by (simp_all add: example_store_def example_gui_def)
  have e: "effects (installPkg_begin ?pkg None example_store) = [InstallPackage ?pkg ''2.0.0'']"
    by (simp add: installPkg_begin_effects)
       (simp add: example_store_def initPackagesStore_def example_gui_def)
  have st: "state ?pkg = NEEDS_UPDATE" and fn: "Package.full_name ?pkg = ''b.org''"
    by (simp_all add: example_gui_def)
  from installPkg_failure_keeps_state [OF h1 h2 h3, of None 3 "Inl (Error ''disk full'')"
         "Error ''disk full''"]
  show ?thesis
    by (simp add: e st fn)
qed

text \<open>
  Claim C8 as first stated fails for an error whose message is empty: the analytics call is
  made with \<open>''unknown''\<close>, not with the message.
\<close>

theorem installPkg_empty_message_counterexample:
  "effects (snd (installPkg (example_gui ''b.org'' ''2.0.0'' NEEDS_UPDATE) None 2
      (Inl (Error [])) example_store)) =
     [InstallPackage (example_gui ''b.org'' ''2.0.0'' NEEDS_UPDATE) ''2.0.0'',
      TrackInstallFailed ''b.org'' ''unknown''] \<and>
   effects (snd (installPkg (example_gui ''b.org'' ''2.0.0'' NEEDS_UPDATE) None 2
      (Inl (Error [])) example_store)) \<noteq>
     [InstallPackage (example_gui ''b.org'' ''2.0.0'' NEEDS_UPDATE) ''2.0.0'',
      TrackInstallFailed ''b.org'' []]"
proof -
  have "findIndex (\<lambda>p. Package.full_name p =
           Package.full_name (example_gui ''b.org'' ''2.0.0'' NEEDS_UPDATE))
          (packages example_store) = Some 1"
    by (simp add: example_store_def example_gui_def)
  from installPkg_failure(3) [OF this, of None 2 "Error []"]
  show ?thesis
    by (simp add: example_store_def initPackagesStore_def example_gui_def)
qed


subsection \<open>search with a term and an index\<close>

text \<open>
  With a non-empty term and an index, \<^verbatim>\<open>search\<close> hands the term and the limit (5 when none
  is given) to the library and returns the items of its results, all of them and in their
  order. Which results the library returns is not part of the module.
\<close>

lemma search_delegates:
  assumes "search_term \<noteq> []" and "packagesIndex s = Some index"
  shows "search fuse_search s search_term None =
           map item (fuse_search index (packages s) search_term (Num 5))"
    and "search fuse_search s search_term (Some limit) =
           map item (fuse_search index (packages s) search_term limit)"
  using assms by (simp_all add: search_def)

end
